theory Spec2Isabelle
  imports Main "HOL-Library.Word"
begin

unbundle bit_operations_syntax

section \<open>The service menu of the CipherShed EFI boot loader (cs_service.c)\<close>

subsection \<open>Machine types and status codes\<close>

text \<open>
  The loader is built for 64-bit UEFI: \<open>UINTN\<close>, \<open>EFI_STATUS\<close> and handles are 64 bits wide.
  A status is an error when its top bit is set (\<open>EFI_ERROR(a)\<close> is \<open>((INTN) a) < 0\<close>), and
  \<open>EFIERR(n)\<close> sets that bit on the code \<open>n\<close>.
\<close>

type_synonym UINT64 = "64 word"
type_synonym UINTN = "64 word"
type_synonym EFI_STATUS = "64 word"
type_synonym EFI_HANDLE = "64 word"

definition EFI_ERROR :: "EFI_STATUS \<Rightarrow> bool" where
  "EFI_ERROR a = (sint a < 0)"

definition EFIERR :: "64 word \<Rightarrow> EFI_STATUS" where
  "EFIERR a = 0x8000000000000000 OR a"

definition EFI_SUCCESS :: EFI_STATUS where
  "EFI_SUCCESS = 0"

definition EFI_DEVICE_ERROR :: EFI_STATUS where
  "EFI_DEVICE_ERROR = EFIERR 7"

definition EFI_OUT_OF_RESOURCES :: EFI_STATUS where
  "EFI_OUT_OF_RESOURCES = EFIERR 9"

definition EFI_VOLUME_CORRUPTED :: EFI_STATUS where
  "EFI_VOLUME_CORRUPTED = EFIERR 10"

definition EFI_NO_MEDIA :: EFI_STATUS where
  "EFI_NO_MEDIA = EFIERR 12"

definition EFI_ACCESS_DENIED :: EFI_STATUS where
  "EFI_ACCESS_DENIED = EFIERR 15"

definition NULL :: EFI_HANDLE where
  "NULL = 0"

text \<open>
  The two macros the file is compiled with. \<open>CS_SERVICE_NUMBER_SECTORS\<close> is defined in
  cs_service.c itself (80 sectors per transfer); \<open>TC_LB_SIZE_BIT_SHIFT_DIVISOR\<close> (the binary
  logarithm of the sector size) comes from a header that is not part of the file and is
  therefore left as a parameter of the build.
\<close>

record config =
  TC_LB_SIZE_BIT_SHIFT_DIVISOR :: nat
  CS_SERVICE_NUMBER_SECTORS :: UINTN

definition cs_build :: "nat \<Rightarrow> config" where
  "cs_build sh = \<lparr>TC_LB_SIZE_BIT_SHIFT_DIVISOR = sh, CS_SERVICE_NUMBER_SECTORS = 80\<rparr>"

subsection \<open>Data\<close>

text \<open>The three fields of \<open>CRYPTO_INFO\<close> that the service menu reads or writes (byte values).\<close>

record CRYPTO_INFO =
  EncryptedAreaStart :: UINT64
  EncryptedAreaLength :: UINT64
  VolumeSize :: UINT64

datatype cs_enum_user_decision = CS_UI_SERVICE_MENU | CS_UI_ESC_PRESSED | CS_UI_REBOOT

record Password =
  Text :: string
  Length :: nat

text \<open>An entry of the array filled by \<open>OpenProtocolInformation\<close>.\<close>

record EFI_OPEN_PROTOCOL_INFORMATION_ENTRY =
  ControllerHandle :: EFI_HANDLE
  Attributes :: "32 word"

definition EFI_OPEN_PROTOCOL_BY_CHILD_CONTROLLER :: "32 word" where
  "EFI_OPEN_PROTOCOL_BY_CHILD_CONTROLLER = 0x00000008"

text \<open>The two Block I/O interfaces a conversion works on.\<close>

datatype blockio = ParentBlockIo | ChildBlockIo

subsection \<open>The environment: firmware and the loader's other modules\<close>

text \<open>
  Every call that leaves cs_service.c is recorded, in order, as an event that carries the
  arguments that matter and the answer that came back. \<open>UpdateBlocksInVolumeHeader\<close> is the one
  event that marks a call inside the file: it is recorded on entry to
  \<open>update_blocks_in_volume_header\<close> so that its invocations can be counted.
\<close>

datatype event =
    OutputString string EFI_STATUS
  | AskForPwd bool EFI_STATUS
  | GetInput EFI_STATUS
  | DecryptVolumeHeader EFI_STATUS
  | CheckReallyDo bool
  | StartConnectFakeCryptoDriver EFI_STATUS
  | OpenProtocolInformation EFI_HANDLE EFI_STATUS
  | IsCsChildDevice EFI_HANDLE EFI_HANDLE bool
  | FreePoolOpenInfo
  | OpenProtocol EFI_HANDLE EFI_STATUS
  | CloseProtocol EFI_HANDLE EFI_STATUS
  | ResetInput
  | AllocatePool UINTN bool
  | ReadBlocks blockio UINT64 UINTN EFI_STATUS
  | WriteBlocks blockio UINT64 UINTN EFI_STATUS
  | DumpPerCent UINT64
  | CheckForESC bool
  | FreePoolBuffer
  | UpdateBlocksInVolumeHeader UINT64 bool
  | UpdateVolumeHeader CRYPTO_INFO EFI_STATUS

text \<open>
  The state the code works on: the \<open>CRYPTO_INFO\<close> singleton behind \<open>get_crypto_info()\<close> and
  the events so far, oldest first.
\<close>

record world =
  crypto_info :: CRYPTO_INFO
  trace :: "event list"

definition emit :: "event \<Rightarrow> world \<Rightarrow> world" where
  "emit e w = w\<lparr>trace := trace w @ [e]\<rparr>"

definition calls :: "(event \<Rightarrow> bool) \<Rightarrow> world \<Rightarrow> nat" where
  "calls P w = length (filter P (trace w))"

fun is_OutputString :: "event \<Rightarrow> bool" where
  "is_OutputString (OutputString _ _) = True"
| "is_OutputString _ = False"

fun is_AskForPwd :: "event \<Rightarrow> bool" where
  "is_AskForPwd (AskForPwd _ _) = True"
| "is_AskForPwd _ = False"

fun is_GetInput :: "event \<Rightarrow> bool" where
  "is_GetInput (GetInput _) = True"
| "is_GetInput _ = False"

fun is_DecryptVolumeHeader :: "event \<Rightarrow> bool" where
  "is_DecryptVolumeHeader (DecryptVolumeHeader _) = True"
| "is_DecryptVolumeHeader _ = False"

fun is_StartConnectFakeCryptoDriver :: "event \<Rightarrow> bool" where
  "is_StartConnectFakeCryptoDriver (StartConnectFakeCryptoDriver _) = True"
| "is_StartConnectFakeCryptoDriver _ = False"

fun is_OpenProtocol :: "event \<Rightarrow> bool" where
  "is_OpenProtocol (OpenProtocol _ _) = True"
| "is_OpenProtocol _ = False"

fun is_CloseProtocol :: "event \<Rightarrow> bool" where
  "is_CloseProtocol (CloseProtocol _ _) = True"
| "is_CloseProtocol _ = False"

fun is_ReadBlocks :: "event \<Rightarrow> bool" where
  "is_ReadBlocks (ReadBlocks _ _ _ _) = True"
| "is_ReadBlocks _ = False"

fun is_WriteBlocks :: "event \<Rightarrow> bool" where
  "is_WriteBlocks (WriteBlocks _ _ _ _) = True"
| "is_WriteBlocks _ = False"

fun is_CheckForESC :: "event \<Rightarrow> bool" where
  "is_CheckForESC (CheckForESC _) = True"
| "is_CheckForESC _ = False"

fun is_UpdateBlocksInVolumeHeader :: "event \<Rightarrow> bool" where
  "is_UpdateBlocksInVolumeHeader (UpdateBlocksInVolumeHeader _ _) = True"
| "is_UpdateBlocksInVolumeHeader _ = False"

fun is_UpdateVolumeHeader :: "event \<Rightarrow> bool" where
  "is_UpdateVolumeHeader (UpdateVolumeHeader _ _) = True"
| "is_UpdateVolumeHeader _ = False"

text \<open>
  What the environment answers. The code is deterministic, so the answer to a call may be
  taken to depend only on how many calls of the same kind came before it (the index counts
  from 0). \<open>sv_error_garbage\<close> is whatever the stack slot of the local \<open>error\<close> of
  \<open>do_encrypt_decrypt_media\<close> holds on entry: the variable is declared without an initialiser.
\<close>

record services =
  sv_OutputString :: "nat \<Rightarrow> EFI_STATUS"
  sv_ask_for_pwd :: "nat \<Rightarrow> EFI_STATUS"
  sv_get_input :: "nat \<Rightarrow> EFI_STATUS \<times> 16 word \<times> string"
  sv_decrypt_volume_header :: "nat \<Rightarrow> EFI_STATUS \<times> CRYPTO_INFO"
  sv_check_really_do :: bool
  sv_start_connect_fake_crypto_driver :: EFI_STATUS
  sv_get_boot_partition_handle :: EFI_HANDLE
  sv_OpenProtocolInformation :: "EFI_STATUS \<times> EFI_OPEN_PROTOCOL_INFORMATION_ENTRY list option"
  sv_is_cs_child_device :: "EFI_HANDLE \<Rightarrow> EFI_HANDLE \<Rightarrow> bool"
  sv_OpenProtocol :: "nat \<Rightarrow> EFI_STATUS"
  sv_CloseProtocol :: "nat \<Rightarrow> EFI_STATUS"
  sv_AllocatePool :: bool
  sv_ReadBlocks :: "nat \<Rightarrow> EFI_STATUS"
  sv_WriteBlocks :: "nat \<Rightarrow> EFI_STATUS"
  sv_check_for_ESC :: "nat \<Rightarrow> bool"
  sv_update_volume_header :: "nat \<Rightarrow> EFI_STATUS"
  sv_error_garbage :: EFI_STATUS

text \<open>
  Modelled from the spec: \<open>update_volume_header(info) -> Result<(), Fail>\<close>, the routine of
  the header module that persists the header metadata back to media. It is declared outside
  cs_service.c; here it records the header it was handed and returns the environment's status.
\<close>

definition update_volume_header :: "services \<Rightarrow> CRYPTO_INFO \<Rightarrow> world \<Rightarrow> EFI_STATUS \<times> world" where
  "update_volume_header sv ci w =
     (let error = sv_update_volume_header sv (calls is_UpdateVolumeHeader w)
      in (error, emit (UpdateVolumeHeader ci error) w))"

subsection \<open>update_blocks_in_volume_header\<close>

definition update_blocks_in_volume_header ::
  "config \<Rightarrow> services \<Rightarrow> UINT64 \<Rightarrow> bool \<Rightarrow> world \<Rightarrow> EFI_STATUS \<times> world" where
  "update_blocks_in_volume_header cfg sv processedLba encrypt w0 =
     (let w = emit (UpdateBlocksInVolumeHeader processedLba encrypt) w0;
          startSector = drop_bit (TC_LB_SIZE_BIT_SHIFT_DIVISOR cfg) (EncryptedAreaStart (crypto_info w));
          sectorsInVolume = drop_bit (TC_LB_SIZE_BIT_SHIFT_DIVISOR cfg) (VolumeSize (crypto_info w))
      in if processedLba < startSector \<or> processedLba > startSector + sectorsInVolume
         then (EFI_VOLUME_CORRUPTED, w)
         else
           let numberSectors = processedLba - startSector;
               w = w\<lparr>crypto_info := (crypto_info w)
                     \<lparr>EncryptedAreaLength := push_bit (TC_LB_SIZE_BIT_SHIFT_DIVISOR cfg) numberSectors\<rparr>\<rparr>
           in update_volume_header sv (crypto_info w) w)"

subsection \<open>The other external calls\<close>

text \<open>
  Each wrapper asks the environment for the answer of the call, by its index among the calls
  of that kind, and records the event. None of these routines is part of cs_service.c.
\<close>

record cs_option_flags =
  silent :: bool
  enable_password_asterisk :: bool

definition ConOut_OutputString :: "services \<Rightarrow> string \<Rightarrow> world \<Rightarrow> EFI_STATUS \<times> world" where
  "ConOut_OutputString sv s w =
     (let error = sv_OutputString sv (calls is_OutputString w)
      in (error, emit (OutputString s error) w))"

definition ask_for_pwd :: "services \<Rightarrow> bool \<Rightarrow> world \<Rightarrow> EFI_STATUS \<times> world" where
  "ask_for_pwd sv showWrongPwd w =
     (let error = sv_ask_for_pwd sv (calls is_AskForPwd w)
      in (error, emit (AskForPwd showWrongPwd error) w))"

text \<open>\<open>get_input\<close> answers with its status, the scan code of the key that ended the input and
  the text it left in the buffer.\<close>

definition get_input :: "services \<Rightarrow> world \<Rightarrow> (EFI_STATUS \<times> 16 word \<times> string) \<times> world" where
  "get_input sv w =
     (let r = sv_get_input sv (calls is_GetInput w)
      in (r, emit (GetInput (fst r)) w))"

definition strlena :: "string \<Rightarrow> nat" where
  "strlena s = length (takeWhile (\<lambda>c. c \<noteq> CHR 0x00) s)"

text \<open>
  Modelled from the spec: \<open>decrypt_volume_header() -> Result<(), WrongPassword|Other>\<close>, which
  "unlocks header, populates in-memory crypto/volume metadata". The routine belongs to the
  header module; here a successful call stores the header the environment yields.
\<close>

definition decrypt_volume_header :: "services \<Rightarrow> world \<Rightarrow> EFI_STATUS \<times> world" where
  "decrypt_volume_header sv w =
     (let r = sv_decrypt_volume_header sv (calls is_DecryptVolumeHeader w);
          w = emit (DecryptVolumeHeader (fst r)) w
      in (fst r, if EFI_ERROR (fst r) then w else w\<lparr>crypto_info := snd r\<rparr>))"

definition check_really_do :: "services \<Rightarrow> world \<Rightarrow> bool \<times> world" where
  "check_really_do sv w = (sv_check_really_do sv, emit (CheckReallyDo (sv_check_really_do sv)) w)"

definition start_connect_fake_crypto_driver :: "services \<Rightarrow> world \<Rightarrow> EFI_STATUS \<times> world" where
  "start_connect_fake_crypto_driver sv w =
     (sv_start_connect_fake_crypto_driver sv,
      emit (StartConnectFakeCryptoDriver (sv_start_connect_fake_crypto_driver sv)) w)"

text \<open>
  Modelled from the spec: the identity probe of Device Discovery, "probing for a
  driver-specific identity capability on the candidate handle". \<open>is_cs_child_device\<close> lives in
  the controller module; its verdict is the environment's.
\<close>

definition is_cs_child_device :: "services \<Rightarrow> EFI_HANDLE \<Rightarrow> EFI_HANDLE \<Rightarrow> world \<Rightarrow> bool \<times> world" where
  "is_cs_child_device sv ParentHandle child w =
     (sv_is_cs_child_device sv ParentHandle child,
      emit (IsCsChildDevice ParentHandle child (sv_is_cs_child_device sv ParentHandle child)) w)"

definition BlockIo_ReadBlocks ::
  "services \<Rightarrow> blockio \<Rightarrow> UINT64 \<Rightarrow> UINTN \<Rightarrow> world \<Rightarrow> EFI_STATUS \<times> world" where
  "BlockIo_ReadBlocks sv dev lba bytes w =
     (let error = sv_ReadBlocks sv (calls is_ReadBlocks w)
      in (error, emit (ReadBlocks dev lba bytes error) w))"

definition BlockIo_WriteBlocks ::
  "services \<Rightarrow> blockio \<Rightarrow> UINT64 \<Rightarrow> UINTN \<Rightarrow> world \<Rightarrow> EFI_STATUS \<times> world" where
  "BlockIo_WriteBlocks sv dev lba bytes w =
     (let error = sv_WriteBlocks sv (calls is_WriteBlocks w)
      in (error, emit (WriteBlocks dev lba bytes error) w))"

definition check_for_ESC :: "services \<Rightarrow> world \<Rightarrow> bool \<times> world" where
  "check_for_ESC sv w =
     (let esc = sv_check_for_ESC sv (calls is_CheckForESC w)
      in (esc, emit (CheckForESC esc) w))"

subsection \<open>check_user_password\<close>

text \<open>The body of the \<open>do ... while (error == EFI_ACCESS_DENIED)\<close> loop. The user may enter wrong
  passwords for ever, so the loop is a partial function: \<open>None\<close> is a run that never returns.\<close>

partial_function (option) password_loop ::
  "services \<Rightarrow> cs_option_flags \<Rightarrow> bool \<Rightarrow> cs_enum_user_decision \<Rightarrow> Password \<Rightarrow> world
   \<Rightarrow> (EFI_STATUS \<times> cs_enum_user_decision \<times> Password \<times> world) option" where
  "password_loop sv flags showWrongPwd user_decision passwd w =
     (let r1 = ask_for_pwd sv showWrongPwd w
      in if EFI_ERROR (fst r1) then Some (fst r1, user_decision, passwd, snd r1)
         else
           let r2 = get_input sv (snd r1);
               passwd = passwd\<lparr>Text := snd (snd (fst r2))\<rparr>
           in if EFI_ERROR (fst (fst r2)) then Some (fst (fst r2), user_decision, passwd, snd r2)
              else if fst (snd (fst r2)) = 0x17
              then Some (EFI_SUCCESS, CS_UI_ESC_PRESSED, passwd, snd r2)
              else
                let passwd = passwd\<lparr>Length := strlena (Text passwd)\<rparr>;
                    r3 = decrypt_volume_header sv (snd r2)
                in if fst r3 = EFI_ACCESS_DENIED
                   then password_loop sv flags True user_decision passwd (snd r3)
                   else Some (fst r3, user_decision, passwd, snd r3))"

declare password_loop.simps [code]

definition check_user_password ::
  "services \<Rightarrow> cs_option_flags \<Rightarrow> cs_enum_user_decision \<Rightarrow> Password \<Rightarrow> world
   \<Rightarrow> (EFI_STATUS \<times> cs_enum_user_decision \<times> Password \<times> world) option" where
  "check_user_password sv flags user_decision passwd w =
     (if \<not> silent flags then
        let r = ConOut_OutputString sv [CHR 0x0D, CHR 0x0A, CHR 0x0A, CHR 0x20] w
        in if EFI_ERROR (fst r) then Some (fst r, user_decision, passwd, snd r)
           else password_loop sv flags False user_decision passwd (snd r)
      else password_loop sv flags False user_decision passwd w)"

subsection \<open>get_cs_child\<close>

text \<open>
  The \<open>for\<close> loop over the entries of \<open>OpenInfo\<close>. It returns the value \<open>*ChildHandle\<close> has when the
  loop is left: \<open>NULL\<close>, as set before the loop, unless a candidate passed the probe.
\<close>

fun scan_open_info ::
  "services \<Rightarrow> EFI_HANDLE \<Rightarrow> EFI_OPEN_PROTOCOL_INFORMATION_ENTRY list \<Rightarrow> world
   \<Rightarrow> EFI_HANDLE \<times> world" where
  "scan_open_info sv ParentHandle [] w = (NULL, w)"
| "scan_open_info sv ParentHandle (e # es) w =
     (if Attributes e AND EFI_OPEN_PROTOCOL_BY_CHILD_CONTROLLER = EFI_OPEN_PROTOCOL_BY_CHILD_CONTROLLER
      then
        let child = ControllerHandle e;
            r = is_cs_child_device sv ParentHandle child w
        in if fst r then (child, snd r)
           else scan_open_info sv ParentHandle es (snd r)
      else scan_open_info sv ParentHandle es w)"

text \<open>
  \<open>OpenProtocolInformation\<close> yields its status and the array it allocated: \<open>None\<close> is a
  \<open>NULL\<close> pointer with a count of zero, \<open>Some es\<close> an array whose count is the length of \<open>es\<close>.
  The result is the status and \<open>*ChildHandle\<close>.
\<close>

definition get_cs_child :: "services \<Rightarrow> EFI_HANDLE \<Rightarrow> world \<Rightarrow> EFI_STATUS \<times> EFI_HANDLE \<times> world" where
  "get_cs_child sv ParentHandle w =
     (let error = fst (sv_OpenProtocolInformation sv);
          OpenInfo = snd (sv_OpenProtocolInformation sv);
          w = emit (OpenProtocolInformation ParentHandle error) w
      in if EFI_ERROR error then (error, NULL, w)
         else
           let r = scan_open_info sv ParentHandle (case OpenInfo of None \<Rightarrow> [] | Some es \<Rightarrow> es) w;
               ChildHandle = fst r;
               w = (if OpenInfo \<noteq> None then emit FreePoolOpenInfo (snd r) else snd r)
           in if ChildHandle = NULL then (EFI_NO_MEDIA, ChildHandle, w)
              else (error, ChildHandle, w))"

subsection \<open>Opening and closing the Block I/O protocol\<close>

definition open_blockio_protocol :: "services \<Rightarrow> EFI_HANDLE \<Rightarrow> world \<Rightarrow> EFI_STATUS \<times> world" where
  "open_blockio_protocol sv handle w =
     (let error = sv_OpenProtocol sv (calls is_OpenProtocol w)
      in (error, emit (OpenProtocol handle error) w))"

definition close_blockio_protocol :: "services \<Rightarrow> EFI_HANDLE \<Rightarrow> world \<Rightarrow> EFI_STATUS \<times> world" where
  "close_blockio_protocol sv handle w =
     (let error = sv_CloseProtocol sv (calls is_CloseProtocol w)
      in (error, emit (CloseProtocol handle error) w))"

definition open_blockio_protocols ::
  "services \<Rightarrow> EFI_HANDLE \<Rightarrow> EFI_HANDLE \<Rightarrow> world \<Rightarrow> EFI_STATUS \<times> world" where
  "open_blockio_protocols sv parentHandle childHandle w =
     (let r1 = open_blockio_protocol sv parentHandle w
      in if \<not> EFI_ERROR (fst r1) then
           let r2 = open_blockio_protocol sv childHandle (snd r1)
           in if EFI_ERROR (fst r2) then
                let r3 = close_blockio_protocol sv parentHandle (snd r2)
                in (fst r2, snd r3)
              else r2
         else r1)"

text \<open>
  The interfaces that are open after a sequence of events, as the firmware keeps them:
  a successful \<open>OpenProtocol\<close> opens the interface of its handle, a successful
  \<open>CloseProtocol\<close> closes one; a call that fails changes nothing.
\<close>

fun open_interfaces :: "event list \<Rightarrow> EFI_HANDLE list \<Rightarrow> EFI_HANDLE list" where
  "open_interfaces [] hs = hs"
| "open_interfaces (OpenProtocol h st # es) hs =
     open_interfaces es (if EFI_ERROR st then hs else h # hs)"
| "open_interfaces (CloseProtocol h st # es) hs =
     open_interfaces es (if EFI_ERROR st then hs else remove1 h hs)"
| "open_interfaces (_ # es) hs = open_interfaces es hs"

subsection \<open>do_encrypt_decrypt_media\<close>

text \<open>The local variables the copy loop changes.\<close>

record locals =
  error :: EFI_STATUS
  lba :: UINT64
  numberSectors :: UINTN
  bufferSectors :: UINTN
  bytesToRead :: UINTN

definition dump_per_cent :: "UINT64 \<Rightarrow> world \<Rightarrow> world" where
  "dump_per_cent x w = emit (DumpPerCent x) w"

text \<open>
  One pass through the body of the \<open>while (numberSectors > 0)\<close> loop. The first component of
  the result tells whether the body was left by a \<open>break\<close>; the others are the locals and the
  state at that point. The progress figure follows the comment beside \<open>__div64_32\<close>, which
  states the quotient it leaves in \<open>x\<close>.
\<close>

definition copy_chunk ::
  "config \<Rightarrow> services \<Rightarrow> bool \<Rightarrow> blockio \<Rightarrow> blockio \<Rightarrow> UINT64 \<Rightarrow> UINTN \<Rightarrow> locals \<Rightarrow> world
   \<Rightarrow> bool \<times> locals \<times> world" where
  "copy_chunk cfg sv encrypt source dest startSector sectorsInVolume v w =
     (let r1 = BlockIo_ReadBlocks sv source (lba v) (bytesToRead v) w;
          v = v\<lparr>error := fst r1\<rparr>
      in if EFI_ERROR (error v) then (True, v, snd r1)
         else
           let r2 = BlockIo_WriteBlocks sv dest (lba v) (bytesToRead v) (snd r1);
               v = v\<lparr>error := fst r2\<rparr>
           in if EFI_ERROR (error v) then (True, v, snd r2)
              else
                let v = (if encrypt then v\<lparr>lba := lba v + bufferSectors v\<rparr> else v);
                    v = v\<lparr>numberSectors := numberSectors v - bufferSectors v\<rparr>;
                    v = (if numberSectors v < bufferSectors v
                         then v\<lparr>bufferSectors := numberSectors v,
                                bytesToRead := push_bit (TC_LB_SIZE_BIT_SHIFT_DIVISOR cfg) (numberSectors v)\<rparr>
                         else v);
                    v = (if \<not> encrypt then v\<lparr>lba := lba v - bufferSectors v\<rparr> else v);
                    w = (if sectorsInVolume > 0 then
                           if encrypt
                           then dump_per_cent
                                  (1000 * (lba v - startSector + bufferSectors v) div sectorsInVolume) (snd r2)
                           else dump_per_cent
                                  (1000 - 1000 * (lba v - startSector) div sectorsInVolume) (snd r2)
                         else snd r2);
                    r3 = check_for_ESC sv w
                in if fst r3 then (True, v, snd r3)
                   else (False, v, snd r3))"

text \<open>
  The loop itself. Nothing bounds the number of passes for arbitrary values of the variables
  (with \<open>bufferSectors = 0\<close> the counter never moves), so the loop is a partial function and
  \<open>None\<close> is a run that never leaves it.
\<close>

partial_function (option) copy_loop ::
  "config \<Rightarrow> services \<Rightarrow> bool \<Rightarrow> blockio \<Rightarrow> blockio \<Rightarrow> UINT64 \<Rightarrow> UINTN \<Rightarrow> locals \<Rightarrow> world
   \<Rightarrow> (locals \<times> world) option" where
  "copy_loop cfg sv encrypt source dest startSector sectorsInVolume v w =
     (if numberSectors v > 0 then
        let r = copy_chunk cfg sv encrypt source dest startSector sectorsInVolume v w
        in if fst r then Some (snd r)
           else copy_loop cfg sv encrypt source dest startSector sectorsInVolume (fst (snd r)) (snd (snd r))
      else Some (v, w))"

declare copy_loop.simps [code]

text \<open>
  The values of the locals when the loop is reached. \<open>error\<close> has not been assigned yet and
  holds \<open>sv_error_garbage\<close>; \<open>bytesToRead\<close>, declared inside the branch of the successful
  allocation, is the buffer's sector count in bytes.
\<close>

definition initial_locals :: "config \<Rightarrow> services \<Rightarrow> bool \<Rightarrow> CRYPTO_INFO \<Rightarrow> locals" where
  "initial_locals cfg sv encrypt cryptoInfo =
     (let startSector = 0;
          numberEncryptedSectors = drop_bit (TC_LB_SIZE_BIT_SHIFT_DIVISOR cfg) (EncryptedAreaLength cryptoInfo);
          endEncryptedArea = startSector + numberEncryptedSectors;
          sectorsInVolume = drop_bit (TC_LB_SIZE_BIT_SHIFT_DIVISOR cfg) (VolumeSize cryptoInfo);
          bufferSectors = CS_SERVICE_NUMBER_SECTORS cfg
      in if encrypt then
           \<lparr>error = sv_error_garbage sv, lba = endEncryptedArea,
            numberSectors = sectorsInVolume - numberEncryptedSectors,
            bufferSectors = bufferSectors,
            bytesToRead = push_bit (TC_LB_SIZE_BIT_SHIFT_DIVISOR cfg) bufferSectors\<rparr>
         else
           let bufferSectors = (if numberEncryptedSectors < bufferSectors
                                then numberEncryptedSectors else bufferSectors)
           in \<lparr>error = sv_error_garbage sv, lba = startSector + numberEncryptedSectors - bufferSectors,
               numberSectors = numberEncryptedSectors,
               bufferSectors = bufferSectors,
               bytesToRead = push_bit (TC_LB_SIZE_BIT_SHIFT_DIVISOR cfg) bufferSectors\<rparr>)"

definition do_encrypt_decrypt_media ::
  "config \<Rightarrow> services \<Rightarrow> bool \<Rightarrow> world \<Rightarrow> (EFI_STATUS \<times> world) option" where
  "do_encrypt_decrypt_media cfg sv encrypt w =
     (let bufferSize = push_bit (TC_LB_SIZE_BIT_SHIFT_DIVISOR cfg) (CS_SERVICE_NUMBER_SECTORS cfg);
          cryptoInfo = crypto_info w;
          startSector = 0;
          numberEncryptedSectors = drop_bit (TC_LB_SIZE_BIT_SHIFT_DIVISOR cfg) (EncryptedAreaLength cryptoInfo);
          endEncryptedArea = startSector + numberEncryptedSectors;
          sectorsInVolume = drop_bit (TC_LB_SIZE_BIT_SHIFT_DIVISOR cfg) (VolumeSize cryptoInfo)
      in if endEncryptedArea > startSector + sectorsInVolume then Some (EFI_VOLUME_CORRUPTED, w)
         else
           let v = initial_locals cfg sv encrypt cryptoInfo;
               source = (if encrypt then ChildBlockIo else ParentBlockIo);
               dest = (if encrypt then ParentBlockIo else ChildBlockIo);
               w = emit ResetInput w;
               w = emit (AllocatePool bufferSize (sv_AllocatePool sv)) w
           in case (if sv_AllocatePool sv
                    then (case copy_loop cfg sv encrypt source dest startSector sectorsInVolume v w of
                            None \<Rightarrow> None
                          | Some (v, w) \<Rightarrow> Some (v, emit FreePoolBuffer w))
                    else Some (v\<lparr>error := EFI_OUT_OF_RESOURCES\<rparr>, w)) of
                None \<Rightarrow> None
              | Some (v, w) \<Rightarrow>
                  if \<not> EFI_ERROR (error v) then
                    let v = v\<lparr>lba := lba v
                              + drop_bit (TC_LB_SIZE_BIT_SHIFT_DIVISOR cfg) (EncryptedAreaStart (crypto_info w))\<rparr>
                    in Some (update_blocks_in_volume_header cfg sv
                               (if encrypt then lba v else lba v + bufferSectors v) encrypt w)
                  else Some (error v, w))"

subsection \<open>encrypt_decrypt_media\<close>

text \<open>The result is the returned status, \<open>*user_decision\<close>, \<open>*passwd\<close> and the state.\<close>

definition encrypt_decrypt_media ::
  "config \<Rightarrow> services \<Rightarrow> cs_option_flags \<Rightarrow> bool \<Rightarrow> Password \<Rightarrow> world
   \<Rightarrow> (EFI_STATUS \<times> cs_enum_user_decision \<times> Password \<times> world) option" where
  "encrypt_decrypt_media cfg sv flags encrypt passwd w =
     (case check_user_password sv flags CS_UI_SERVICE_MENU passwd w of
        None \<Rightarrow> None
      | Some (err, user_decision, passwd, w) \<Rightarrow>
          if EFI_ERROR err then Some (err, user_decision, passwd, w)
          else if user_decision = CS_UI_ESC_PRESSED
          then Some (EFI_SUCCESS, CS_UI_SERVICE_MENU, passwd, w)
          else
            let r = check_really_do sv w
            in if \<not> fst r then Some (EFI_SUCCESS, user_decision, passwd, snd r)
               else
                 let r = start_connect_fake_crypto_driver sv (snd r)
                 in if EFI_ERROR (fst r) then Some (fst r, user_decision, passwd, snd r)
                    else
                      let ParentHandle = sv_get_boot_partition_handle sv;
                          c = get_cs_child sv ParentHandle (snd r);
                          ChildHandle = fst (snd c)
                      in if EFI_ERROR (fst c) then Some (fst c, user_decision, passwd, snd (snd c))
                         else
                           let r = open_blockio_protocols sv ParentHandle ChildHandle (snd (snd c))
                           in if \<not> EFI_ERROR (fst r) then
                                let w = (if \<not> silent flags
                                         then snd (ConOut_OutputString sv [CHR 0x0D, CHR 0x0A, CHR 0x0A] (snd r))
                                         else snd r)
                                in case do_encrypt_decrypt_media cfg sv encrypt w of
                                     None \<Rightarrow> None
                                   | Some (err, w) \<Rightarrow>
                                       let w = snd (close_blockio_protocol sv ParentHandle w);
                                           w = snd (close_blockio_protocol sv ChildHandle w)
                                       in Some (err, CS_UI_REBOOT, passwd, w)
                              else Some (fst r, user_decision, passwd, snd r))"

subsection \<open>Reading the events\<close>

text \<open>The status a device transfer came back with, and the statuses of all transfers among
  some events, oldest first.\<close>

fun io_status :: "event \<Rightarrow> EFI_STATUS option" where
  "io_status (ReadBlocks _ _ _ st) = Some st"
| "io_status (WriteBlocks _ _ _ st) = Some st"
| "io_status _ = None"

definition io_statuses :: "event list \<Rightarrow> EFI_STATUS list" where
  "io_statuses es = List.map_filter io_status es"

text \<open>The events the copy loop can add.\<close>

fun is_loop_event :: "event \<Rightarrow> bool" where
  "is_loop_event (ReadBlocks _ _ _ _) = True"
| "is_loop_event (WriteBlocks _ _ _ _) = True"
| "is_loop_event (DumpPerCent _) = True"
| "is_loop_event (CheckForESC _) = True"
| "is_loop_event _ = False"

text \<open>The events that a step from state \<open>w\<close> to state \<open>w'\<close> added, and the headers that
  were handed to \<open>update_volume_header\<close> among some events.\<close>

definition new_events :: "world \<Rightarrow> world \<Rightarrow> event list" where
  "new_events w w' = drop (length (trace w)) (trace w')"

fun persisted_headers :: "event list \<Rightarrow> CRYPTO_INFO list" where
  "persisted_headers [] = []"
| "persisted_headers (UpdateVolumeHeader ci st # es) = ci # persisted_headers es"
| "persisted_headers (_ # es) = persisted_headers es"

text \<open>
  For device discovery: an entry is a candidate when it carries the child-controller
  attribute, it passes when the identity probe accepts it as well, and \<open>probe_events\<close> are
  the events of the probes that reject the candidates among some entries.
\<close>

definition is_child_controller :: "EFI_OPEN_PROTOCOL_INFORMATION_ENTRY \<Rightarrow> bool" where
  "is_child_controller e \<longleftrightarrow>
     Attributes e AND EFI_OPEN_PROTOCOL_BY_CHILD_CONTROLLER = EFI_OPEN_PROTOCOL_BY_CHILD_CONTROLLER"

definition passes_probe :: "services \<Rightarrow> EFI_HANDLE \<Rightarrow> EFI_OPEN_PROTOCOL_INFORMATION_ENTRY \<Rightarrow> bool" where
  "passes_probe sv ParentHandle e \<longleftrightarrow>
     is_child_controller e \<and> sv_is_cs_child_device sv ParentHandle (ControllerHandle e)"

definition probe_events :: "EFI_HANDLE \<Rightarrow> EFI_OPEN_PROTOCOL_INFORMATION_ENTRY list \<Rightarrow> event list" where
  "probe_events ParentHandle es =
     map (\<lambda>e. IsCsChildDevice ParentHandle (ControllerHandle e) False) (filter is_child_controller es)"

text \<open>The transfers among some events, oldest first: the interface, the LBA and the byte
  count of every read, and of every write.\<close>

fun read_chunks :: "event list \<Rightarrow> (blockio \<times> UINT64 \<times> UINTN) list" where
  "read_chunks [] = []"
| "read_chunks (ReadBlocks dev l n st # es) = (dev, l, n) # read_chunks es"
| "read_chunks (_ # es) = read_chunks es"

fun write_chunks :: "event list \<Rightarrow> (blockio \<times> UINT64 \<times> UINTN) list" where
  "write_chunks [] = []"
| "write_chunks (WriteBlocks dev l n st # es) = (dev, l, n) # write_chunks es"
| "write_chunks (_ # es) = write_chunks es"

text \<open>
  The chunks of a volume of 1000 sectors that is converted forward with a buffer of 80
  sectors, for a sector-size shift \<open>sh\<close>: twelve chunks of 80 sectors and a last one of 40
  sectors; and the first three of them.
\<close>

definition thirteen_chunks :: "nat \<Rightarrow> blockio \<Rightarrow> (blockio \<times> UINT64 \<times> UINTN) list" where
  "thirteen_chunks sh dev =
     [(dev, 0, push_bit sh 80),
      (dev, 80, push_bit sh 80),
      (dev, 160, push_bit sh 80),
      (dev, 240, push_bit sh 80),
      (dev, 320, push_bit sh 80),
      (dev, 400, push_bit sh 80),
      (dev, 480, push_bit sh 80),
      (dev, 560, push_bit sh 80),
      (dev, 640, push_bit sh 80),
      (dev, 720, push_bit sh 80),
      (dev, 800, push_bit sh 80),
      (dev, 880, push_bit sh 80),
      (dev, 960, push_bit sh 40)]"

definition first_three_chunks :: "nat \<Rightarrow> blockio \<Rightarrow> (blockio \<times> UINT64 \<times> UINTN) list" where
  "first_three_chunks sh dev =
     [(dev, 0, push_bit sh 80),
      (dev, 80, push_bit sh 80),
      (dev, 160, push_bit sh 80)]"

text \<open>The events device discovery can add.\<close>

fun is_discovery_event :: "event \<Rightarrow> bool" where
  "is_discovery_event (OpenProtocolInformation _ _) = True"
| "is_discovery_event (IsCsChildDevice _ _ _) = True"
| "is_discovery_event FreePoolOpenInfo = True"
| "is_discovery_event _ = False"

text \<open>The invariant of the header: the encrypted length is between 0 and the volume size.\<close>

definition valid_header :: "CRYPTO_INFO \<Rightarrow> bool" where
  "valid_header ci \<longleftrightarrow> 0 \<le> EncryptedAreaLength ci \<and> EncryptedAreaLength ci \<le> VolumeSize ci"

subsection \<open>A concrete volume and a concrete environment\<close>

text \<open>
  A volume of 1000 sectors of 512 bytes that starts at sector 2048 of its disk and is not yet
  encrypted, and an environment in which the user types a password that is accepted and
  confirms, the driver starts, one child controller passes the probe and every later call
  succeeds. The properties below are instantiated with them.
\<close>

definition example_header :: CRYPTO_INFO where
  "example_header = \<lparr>EncryptedAreaStart = 0x100000, EncryptedAreaLength = 0, VolumeSize = 512000\<rparr>"

definition example_world :: world where
  "example_world = \<lparr>crypto_info = example_header, trace = []\<rparr>"

definition example_services :: services where
  "example_services =
     \<lparr>sv_OutputString = (\<lambda>k. EFI_SUCCESS),
      sv_ask_for_pwd = (\<lambda>k. EFI_SUCCESS),
      sv_get_input = (\<lambda>k. (EFI_SUCCESS, 0, ''secret'')),
      sv_decrypt_volume_header = (\<lambda>k. (EFI_SUCCESS, example_header)),
      sv_check_really_do = True,
      sv_start_connect_fake_crypto_driver = EFI_SUCCESS,
      sv_get_boot_partition_handle = 1,
      sv_OpenProtocolInformation =
        (EFI_SUCCESS, Some [\<lparr>ControllerHandle = 7, Attributes = 2\<rparr>,
                            \<lparr>ControllerHandle = 2, Attributes = 8\<rparr>,
                            \<lparr>ControllerHandle = 3, Attributes = 8\<rparr>,
                            \<lparr>ControllerHandle = 4, Attributes = 8\<rparr>]),
      sv_is_cs_child_device = (\<lambda>p c. c = 3 \<or> c = 4),
      sv_OpenProtocol = (\<lambda>k. EFI_SUCCESS),
      sv_CloseProtocol = (\<lambda>k. EFI_SUCCESS),
      sv_AllocatePool = True,
      sv_ReadBlocks = (\<lambda>k. EFI_SUCCESS),
      sv_WriteBlocks = (\<lambda>k. EFI_SUCCESS),
      sv_check_for_ESC = (\<lambda>k. False),
      sv_update_volume_header = (\<lambda>k. EFI_SUCCESS),
      sv_error_garbage = EFI_SUCCESS\<rparr>"

definition example_flags :: cs_option_flags where
  "example_flags = \<lparr>silent = False, enable_password_asterisk = True\<rparr>"

definition example_passwd :: Password where
  "example_passwd = \<lparr>Text = [], Length = 0\<rparr>"

text \<open>Variations: the first read fails; the user presses escape at the third poll; the whole
  volume is already encrypted; the stack slot of \<open>error\<close> happens to hold an error code.\<close>

definition failing_read_services :: services where
  "failing_read_services = example_services\<lparr>sv_ReadBlocks := (\<lambda>k. EFI_DEVICE_ERROR)\<rparr>"

definition cancelling_services :: services where
  "cancelling_services = example_services\<lparr>sv_check_for_ESC := (\<lambda>k. k = 2)\<rparr>"

definition encrypted_header :: CRYPTO_INFO where
  "encrypted_header = example_header\<lparr>EncryptedAreaLength := 512000\<rparr>"

definition encrypted_world :: world where
  "encrypted_world = \<lparr>crypto_info = encrypted_header, trace = []\<rparr>"

definition garbage_services :: services where
  "garbage_services = example_services\<lparr>sv_error_garbage := EFI_DEVICE_ERROR\<rparr>"

text \<open>Further variations: the user presses escape at the first password prompt; the child's
  interface cannot be opened; closing the parent's interface fails as well.\<close>

definition escaping_services :: services where
  "escaping_services = example_services\<lparr>sv_get_input := (\<lambda>k. (EFI_SUCCESS, 0x17, []))\<rparr>"

definition child_open_failing_services :: services where
  "child_open_failing_services = example_services
     \<lparr>sv_OpenProtocol := (\<lambda>k. if k = 0 then EFI_SUCCESS else EFI_DEVICE_ERROR)\<rparr>"

definition close_failing_services :: services where
  "close_failing_services = child_open_failing_services\<lparr>sv_CloseProtocol := (\<lambda>k. EFI_DEVICE_ERROR)\<rparr>"

text \<open>The state in which the concrete environment leaves the password check of the
  concrete volume: the header is unlocked, four calls have been made.\<close>

definition unlocked_world :: world where
  "unlocked_world =
     \<lparr>crypto_info = example_header,
      trace = [OutputString [CHR 0x0D, CHR 0x0A, CHR 0x0A, CHR 0x20] EFI_SUCCESS,
               AskForPwd False EFI_SUCCESS, GetInput EFI_SUCCESS, DecryptVolumeHeader EFI_SUCCESS]\<rparr>"

definition typed_passwd :: Password where
  "typed_passwd = \<lparr>Text = ''secret'', Length = 6\<rparr>"

section \<open>Properties\<close>

subsection \<open>Status codes\<close>

lemma EFI_ERROR_simps:
  "\<not> EFI_ERROR EFI_SUCCESS" "EFI_ERROR EFI_VOLUME_CORRUPTED" "EFI_ERROR EFI_OUT_OF_RESOURCES"
  "EFI_ERROR EFI_NO_MEDIA" "EFI_ERROR EFI_ACCESS_DENIED" "EFI_ERROR EFI_DEVICE_ERROR"
  by (simp_all add: EFI_ERROR_def EFI_SUCCESS_def EFI_VOLUME_CORRUPTED_def EFI_OUT_OF_RESOURCES_def
      EFI_NO_MEDIA_def EFI_ACCESS_DENIED_def EFI_DEVICE_ERROR_def EFIERR_def)

lemma EFI_SUCCESS_not_ACCESS_DENIED: "EFI_SUCCESS \<noteq> EFI_ACCESS_DENIED"
  by (simp add: EFI_SUCCESS_def EFI_ACCESS_DENIED_def EFIERR_def)

subsection \<open>Shifts on 64-bit words\<close>

lemma unat_drop_bit_div:
  fixes x :: "64 word"
  shows "unat (drop_bit sh x) = unat x div 2 ^ sh"
proof -
  have "unat (drop_bit sh x) = drop_bit sh (unat x)" by (rule unat_drop_bit_eq)
  also have "\<dots> = unat x div 2 ^ sh" by (rule drop_bit_eq_div)
  finally show ?thesis .
qed

lemma unat_push_bit_mod:
  fixes n :: "64 word"
  shows "unat (push_bit sh n) = (unat n * 2 ^ sh) mod 2 ^ 64"
proof -
  have "unat (push_bit sh n) = take_bit LENGTH(64) (push_bit sh (unat n))"
    by (simp only: unsigned_push_bit_eq)
  also have "\<dots> = (unat n * 2 ^ sh) mod 2 ^ 64"
    by (simp only: take_bit_eq_mod push_bit_eq_mult) simp
  finally show ?thesis .
qed

lemma unat_push_bit_le:
  fixes n :: "64 word"
  shows "unat (push_bit sh n) \<le> unat n * 2 ^ sh"
  by (simp only: unat_push_bit_mod) (rule mod_less_eq_dividend)

lemma unat_push_bit_exact:
  fixes n :: "64 word"
  assumes "unat n * 2 ^ sh < 2 ^ 64"
  shows "unat (push_bit sh n) = unat n * 2 ^ sh"
  using assms by (simp only: unat_push_bit_mod mod_less)

lemma drop_bit_mult_le:
  fixes x :: "64 word"
  shows "unat (drop_bit sh x) * 2 ^ sh \<le> unat x"
  by (simp only: unat_drop_bit_div) simp

lemma push_le_of_le_drop:
  fixes n V :: "64 word"
  assumes "n \<le> drop_bit sh V"
  shows "push_bit sh n \<le> V"
proof -
  have a: "unat n \<le> unat (drop_bit sh V)"
    using assms by (simp only: word_le_nat_alt)
  have "unat n * 2 ^ sh \<le> unat (drop_bit sh V) * 2 ^ sh"
    using a by (rule mult_le_mono1)
  also have "\<dots> \<le> unat V" by (rule drop_bit_mult_le)
  finally have b: "unat n * 2 ^ sh \<le> unat V" .
  with unat_push_bit_le [of sh n] have "unat (push_bit sh n) \<le> unat V" by linarith
  then show ?thesis by (simp only: word_le_nat_alt)
qed

lemma sub_le_of_range:
  fixes p s v :: "64 word"
  assumes "\<not> (p < s \<or> p > s + v)"
  shows "p - s \<le> v"
  using assms by unat_arith

lemma drop_push_small:
  fixes n :: "64 word"
  assumes "unat n * 2 ^ sh < 2 ^ 64"
  shows "drop_bit sh (push_bit sh n) = n"
proof -
  have "unat (drop_bit sh (push_bit sh n)) = unat n"
    using assms by (simp only: unat_drop_bit_div unat_push_bit_exact) simp
  then show ?thesis by (simp only: word_unat_eq_iff)
qed

lemma drop_bit_bound:
  fixes x :: "64 word"
  shows "unat (drop_bit sh x) * 2 ^ sh < 2 ^ 64"
proof -
  have "unat x < 2 ^ 64" using unsigned_less [of x] by simp
  with drop_bit_mult_le [of sh x] show ?thesis by linarith
qed

lemma push_drop_drop:
  fixes x :: "64 word"
  shows "drop_bit sh (push_bit sh (drop_bit sh x)) = drop_bit sh x"
  by (rule drop_push_small) (rule drop_bit_bound)

lemma start_plus_no_wrap:
  fixes a b :: "64 word"
  assumes "0 < sh"
  shows "unat (drop_bit sh a) + unat (drop_bit sh b) < 2 ^ 64"
proof -
  have h: "unat (drop_bit sh x) * 2 \<le> unat x" for x :: "64 word"
  proof -
    have "(2::nat) ^ 1 \<le> 2 ^ sh" using assms by (intro power_increasing) auto
    then have "unat (drop_bit sh x) * 2 \<le> unat (drop_bit sh x) * 2 ^ sh" by simp
    also have "\<dots> \<le> unat x" by (rule drop_bit_mult_le)
    finally show ?thesis .
  qed
  have "unat a < 2 ^ 64" "unat b < 2 ^ 64" using unsigned_less [of a] unsigned_less [of b] by simp_all
  with h [of a] h [of b] show ?thesis by linarith
qed

subsection \<open>Events, the copy loop and the shape of a conversion\<close>

lemma trace_emit [simp]: "trace (emit e w) = trace w @ [e]"
  by (simp add: emit_def)

lemma crypto_info_emit [simp]: "crypto_info (emit e w) = crypto_info w"
  by (simp add: emit_def)

lemma calls_emit [simp]: "calls P (emit e w) = (if P e then Suc (calls P w) else calls P w)"
  by (simp add: calls_def)

lemma io_statuses_append [simp]: "io_statuses (xs @ ys) = io_statuses xs @ io_statuses ys"
  by (simp add: io_statuses_def map_filter_def)

lemma io_statuses_Nil [simp]: "io_statuses [] = []"
  by (simp add: io_statuses_def map_filter_def)

lemma io_statuses_Cons [simp]:
  "io_statuses (e # es) = (case io_status e of None \<Rightarrow> io_statuses es | Some st \<Rightarrow> st # io_statuses es)"
  by (simp add: io_statuses_def map_filter_def split: option.splits)

lemma copy_chunk_frame:
  "crypto_info (snd (snd (copy_chunk cfg sv encrypt source dest startSector sectorsInVolume v w))) = crypto_info w
   \<and> (\<exists>es. trace (snd (snd (copy_chunk cfg sv encrypt source dest startSector sectorsInVolume v w))) = trace w @ es
          \<and> (\<forall>e\<in>set es. is_loop_event e) \<and> io_statuses es \<noteq> []
          \<and> error (fst (snd (copy_chunk cfg sv encrypt source dest startSector sectorsInVolume v w))) = last (io_statuses es))"
  by (simp add: copy_chunk_def Let_def BlockIo_ReadBlocks_def BlockIo_WriteBlocks_def check_for_ESC_def
        dump_per_cent_def)

lemma copy_loop_frame:
  assumes "copy_loop cfg sv encrypt source dest startSector sectorsInVolume v w = Some r"
  shows "crypto_info (snd r) = crypto_info w
       \<and> (\<exists>es. trace (snd r) = trace w @ es \<and> (\<forall>e\<in>set es. is_loop_event e)
            \<and> (if numberSectors v = 0 then es = [] \<and> fst r = v
                else io_statuses es \<noteq> [] \<and> error (fst r) = last (io_statuses es)))"
  using assms
proof (induction cfg sv encrypt source dest startSector sectorsInVolume v w r rule: copy_loop.raw_induct [rotated 1, consumes 1])
  case (1 f cfg sv encrypt source dest startSector sectorsInVolume v w r)
  show ?case
  proof (cases "numberSectors v = 0")
    case True
    with 1(2) show ?thesis by (auto simp: word_greater_zero_iff)
  next
    case False
    define c where "c = copy_chunk cfg sv encrypt source dest startSector sectorsInVolume v w"
    from copy_chunk_frame [of cfg sv encrypt source dest startSector sectorsInVolume v w]
    obtain es1 where ci: "crypto_info (snd (snd c)) = crypto_info w"
      and tr: "trace (snd (snd c)) = trace w @ es1" and ev: "\<forall>e\<in>set es1. is_loop_event e"
      and io: "io_statuses es1 \<noteq> []" and er: "error (fst (snd c)) = last (io_statuses es1)"
      unfolding c_def by blast
    show ?thesis
    proof (cases "fst c")
      case True
      with 1(2) False have "r = snd c" by (simp add: c_def word_greater_zero_iff Let_def)
      with ci tr ev io er False show ?thesis by auto
    next
      case cont: False
      with 1(2) False
      have "f cfg sv encrypt source dest startSector sectorsInVolume (fst (snd c)) (snd (snd c)) = Some r"
        by (simp add: c_def word_greater_zero_iff Let_def)
      from 1(1) [OF this] obtain es2 where ci2: "crypto_info (snd r) = crypto_info (snd (snd c))"
        and tr2: "trace (snd r) = trace (snd (snd c)) @ es2" and ev2: "\<forall>e\<in>set es2. is_loop_event e"
        and rest: "if numberSectors (fst (snd c)) = 0 then es2 = [] \<and> fst r = fst (snd c)
                   else io_statuses es2 \<noteq> [] \<and> error (fst r) = last (io_statuses es2)"
        by blast
      have "trace (snd r) = trace w @ (es1 @ es2)" using tr tr2 by simp
      moreover have "\<forall>e\<in>set (es1 @ es2). is_loop_event e" using ev ev2 by auto
      moreover have "io_statuses (es1 @ es2) \<noteq> []" using io by simp
      moreover have "error (fst r) = last (io_statuses (es1 @ es2))"
        using rest er io by (auto split: if_splits)
      ultimately show ?thesis using ci ci2 False by metis
    qed
  qed
qed

lemma new_events_append [simp]: "trace w' = trace w @ es \<Longrightarrow> new_events w w' = es"
  by (simp add: new_events_def)

lemma persisted_headers_append [simp]:
  "persisted_headers (xs @ ys) = persisted_headers xs @ persisted_headers ys"
  by (induction xs rule: persisted_headers.induct) simp_all

lemma persisted_headers_loop_events:
  "\<forall>e\<in>set es. is_loop_event e \<Longrightarrow> persisted_headers es = []"
  by (induction es rule: persisted_headers.induct) simp_all

lemma update_blocks_result:
  "update_blocks_in_volume_header cfg sv p enc w =
     (let s = drop_bit (TC_LB_SIZE_BIT_SHIFT_DIVISOR cfg) (EncryptedAreaStart (crypto_info w));
          n = drop_bit (TC_LB_SIZE_BIT_SHIFT_DIVISOR cfg) (VolumeSize (crypto_info w));
          ci = (crypto_info w)\<lparr>EncryptedAreaLength := push_bit (TC_LB_SIZE_BIT_SHIFT_DIVISOR cfg) (p - s)\<rparr>;
          st = sv_update_volume_header sv (calls is_UpdateVolumeHeader w)
      in if p < s \<or> s + n < p
         then (EFI_VOLUME_CORRUPTED, w\<lparr>trace := trace w @ [UpdateBlocksInVolumeHeader p enc]\<rparr>)
         else (st, \<lparr>crypto_info = ci,
                    trace = trace w @ [UpdateBlocksInVolumeHeader p enc, UpdateVolumeHeader ci st]\<rparr>))"
  by (simp add: update_blocks_in_volume_header_def update_volume_header_def Let_def emit_def calls_def)

lemma update_blocks_new_length_le:
  fixes p :: "64 word"
  assumes "\<not> (p < drop_bit sh a \<or> drop_bit sh a + drop_bit sh V < p)"
  shows "push_bit sh (p - drop_bit sh a) \<le> V"
  by (rule push_le_of_le_drop) (rule sub_le_of_range [OF assms])

lemma update_blocks_valid:
  assumes "valid_header (crypto_info w)"
  shows "valid_header (crypto_info (snd (update_blocks_in_volume_header cfg sv p enc w)))
       \<and> VolumeSize (crypto_info (snd (update_blocks_in_volume_header cfg sv p enc w))) = VolumeSize (crypto_info w)
       \<and> (\<forall>ci\<in>set (persisted_headers (new_events w (snd (update_blocks_in_volume_header cfg sv p enc w)))).
            valid_header ci)"
  using assms update_blocks_new_length_le [of p "TC_LB_SIZE_BIT_SHIFT_DIVISOR cfg"
      "EncryptedAreaStart (crypto_info w)" "VolumeSize (crypto_info w)"]
  by (auto simp: update_blocks_result Let_def valid_header_def new_events_def)

lemma do_encrypt_decrypt_media_unfold:
  "do_encrypt_decrypt_media cfg sv enc w =
     (if drop_bit (TC_LB_SIZE_BIT_SHIFT_DIVISOR cfg) (VolumeSize (crypto_info w))
         < drop_bit (TC_LB_SIZE_BIT_SHIFT_DIVISOR cfg) (EncryptedAreaLength (crypto_info w))
      then Some (EFI_VOLUME_CORRUPTED, w)
      else if \<not> sv_AllocatePool sv
      then Some (EFI_OUT_OF_RESOURCES,
                 emit (AllocatePool (push_bit (TC_LB_SIZE_BIT_SHIFT_DIVISOR cfg) (CS_SERVICE_NUMBER_SECTORS cfg)) False)
                   (emit ResetInput w))
      else
        case copy_loop cfg sv enc (if enc then ChildBlockIo else ParentBlockIo)
               (if enc then ParentBlockIo else ChildBlockIo) 0
               (drop_bit (TC_LB_SIZE_BIT_SHIFT_DIVISOR cfg) (VolumeSize (crypto_info w)))
               (initial_locals cfg sv enc (crypto_info w))
               (emit (AllocatePool (push_bit (TC_LB_SIZE_BIT_SHIFT_DIVISOR cfg) (CS_SERVICE_NUMBER_SECTORS cfg)) True)
                  (emit ResetInput w)) of
          None \<Rightarrow> None
        | Some (v, wl) \<Rightarrow>
            if EFI_ERROR (error v) then Some (error v, emit FreePoolBuffer wl)
            else Some (update_blocks_in_volume_header cfg sv
                         (if enc then lba v + drop_bit (TC_LB_SIZE_BIT_SHIFT_DIVISOR cfg) (EncryptedAreaStart (crypto_info wl))
                          else lba v + drop_bit (TC_LB_SIZE_BIT_SHIFT_DIVISOR cfg) (EncryptedAreaStart (crypto_info wl))
                               + bufferSectors v)
                         enc (emit FreePoolBuffer wl)))"
  by (auto simp: do_encrypt_decrypt_media_def Let_def EFI_ERROR_simps split: option.splits)

lemma do_encrypt_decrypt_media_cases:
  assumes "do_encrypt_decrypt_media cfg sv enc w = Some (st, w')"
  shows "(st = EFI_VOLUME_CORRUPTED \<and> w' = w)
       \<or> (\<not> sv_AllocatePool sv \<and> st = EFI_OUT_OF_RESOURCES \<and> crypto_info w' = crypto_info w
            \<and> trace w' = trace w @ [ResetInput,
                 AllocatePool (push_bit (TC_LB_SIZE_BIT_SHIFT_DIVISOR cfg) (CS_SERVICE_NUMBER_SECTORS cfg)) False])
       \<or> (\<exists>v wl es. sv_AllocatePool sv
            \<and> copy_loop cfg sv enc (if enc then ChildBlockIo else ParentBlockIo)
                 (if enc then ParentBlockIo else ChildBlockIo) 0
                 (drop_bit (TC_LB_SIZE_BIT_SHIFT_DIVISOR cfg) (VolumeSize (crypto_info w)))
                 (initial_locals cfg sv enc (crypto_info w))
                 (emit (AllocatePool (push_bit (TC_LB_SIZE_BIT_SHIFT_DIVISOR cfg) (CS_SERVICE_NUMBER_SECTORS cfg)) True)
                    (emit ResetInput w)) = Some (v, wl)
            \<and> crypto_info wl = crypto_info w
            \<and> trace wl = trace w @ [ResetInput,
                 AllocatePool (push_bit (TC_LB_SIZE_BIT_SHIFT_DIVISOR cfg) (CS_SERVICE_NUMBER_SECTORS cfg)) True] @ es
            \<and> (\<forall>e\<in>set es. is_loop_event e)
            \<and> (if numberSectors (initial_locals cfg sv enc (crypto_info w)) = 0
                then es = [] \<and> v = initial_locals cfg sv enc (crypto_info w)
                else io_statuses es \<noteq> [] \<and> error v = last (io_statuses es))
            \<and> (if EFI_ERROR (error v) then st = error v \<and> w' = emit FreePoolBuffer wl
                else (st, w') = update_blocks_in_volume_header cfg sv
                         (if enc then lba v + drop_bit (TC_LB_SIZE_BIT_SHIFT_DIVISOR cfg) (EncryptedAreaStart (crypto_info w))
                          else lba v + drop_bit (TC_LB_SIZE_BIT_SHIFT_DIVISOR cfg) (EncryptedAreaStart (crypto_info w))
                               + bufferSectors v)
                         enc (emit FreePoolBuffer wl)))"
proof -
  let ?bad = "drop_bit (TC_LB_SIZE_BIT_SHIFT_DIVISOR cfg) (VolumeSize (crypto_info w))
         < drop_bit (TC_LB_SIZE_BIT_SHIFT_DIVISOR cfg) (EncryptedAreaLength (crypto_info w))"
  let ?w0 = "emit (AllocatePool (push_bit (TC_LB_SIZE_BIT_SHIFT_DIVISOR cfg) (CS_SERVICE_NUMBER_SECTORS cfg)) True)
                    (emit ResetInput w)"
  let ?L = "copy_loop cfg sv enc (if enc then ChildBlockIo else ParentBlockIo)
                 (if enc then ParentBlockIo else ChildBlockIo) 0
                 (drop_bit (TC_LB_SIZE_BIT_SHIFT_DIVISOR cfg) (VolumeSize (crypto_info w)))
                 (initial_locals cfg sv enc (crypto_info w)) ?w0"
  show ?thesis
  proof (cases ?bad)
    case True
    with assms show ?thesis by (simp add: do_encrypt_decrypt_media_unfold)
  next
    case ok: False
    show ?thesis
    proof (cases "sv_AllocatePool sv")
      case False
      with assms ok show ?thesis by (auto simp: do_encrypt_decrypt_media_unfold)
    next
      case alloc: True
      from assms ok alloc obtain v wl where L: "?L = Some (v, wl)"
        by (auto simp: do_encrypt_decrypt_media_unfold split: option.splits)
      from copy_loop_frame [OF L]
      have "\<exists>es. crypto_info wl = crypto_info ?w0 \<and> trace wl = trace ?w0 @ es
              \<and> (\<forall>e\<in>set es. is_loop_event e)
              \<and> (if numberSectors (initial_locals cfg sv enc (crypto_info w)) = 0
                  then es = [] \<and> v = initial_locals cfg sv enc (crypto_info w)
                  else io_statuses es \<noteq> [] \<and> error v = last (io_statuses es))"
        by (simp only: fst_conv snd_conv) blast
      then obtain es where
        ci0: "crypto_info wl = crypto_info ?w0" and tr: "trace wl = trace ?w0 @ es"
        and ev: "\<forall>e\<in>set es. is_loop_event e"
        and io: "if numberSectors (initial_locals cfg sv enc (crypto_info w)) = 0
                 then es = [] \<and> v = initial_locals cfg sv enc (crypto_info w)
                 else io_statuses es \<noteq> [] \<and> error v = last (io_statuses es)"
        by blast
      from ci0 have ci: "crypto_info wl = crypto_info w" by simp
      from tr have tr': "trace wl = trace w @ [ResetInput,
                 AllocatePool (push_bit (TC_LB_SIZE_BIT_SHIFT_DIVISOR cfg) (CS_SERVICE_NUMBER_SECTORS cfg)) True] @ es"
        by simp
      from assms ok alloc L ci
      have fin: "if EFI_ERROR (error v) then st = error v \<and> w' = emit FreePoolBuffer wl
                else (st, w') = update_blocks_in_volume_header cfg sv
                         (if enc then lba v + drop_bit (TC_LB_SIZE_BIT_SHIFT_DIVISOR cfg) (EncryptedAreaStart (crypto_info w))
                          else lba v + drop_bit (TC_LB_SIZE_BIT_SHIFT_DIVISOR cfg) (EncryptedAreaStart (crypto_info w))
                               + bufferSectors v)
                         enc (emit FreePoolBuffer wl)"
        by (auto simp: do_encrypt_decrypt_media_unfold)
      from alloc L ci tr' ev io fin show ?thesis by blast
    qed
  qed
qed

lemma update_blocks_trace:
  "\<exists>us. trace (snd (update_blocks_in_volume_header cfg sv p enc w)) = trace w @ us
       \<and> filter is_UpdateBlocksInVolumeHeader us = [UpdateBlocksInVolumeHeader p enc]
       \<and> io_statuses us = []"
  by (simp add: update_blocks_result Let_def)

lemma persisted_headers_loop [simp]:
  "\<forall>e\<in>set es. is_loop_event e \<Longrightarrow> persisted_headers es = []"
  by (rule persisted_headers_loop_events)


subsection \<open>The range check of update_blocks_in_volume_header\<close>

text \<open>
  Claim C4. Whenever \<open>processedLba\<close> lies outside the closed interval from the start sector
  to the start sector plus the number of sectors of the volume (both read from the header
  with the sector-size shift, the sum taken in the natural numbers),
  \<open>update_blocks_in_volume_header\<close> returns \<open>EFI_VOLUME_CORRUPTED\<close>, leaves every field of the
  header as it was and does not call \<open>update_volume_header\<close>: the only event it adds is the
  mark of its own invocation.
\<close>

theorem update_blocks_out_of_range:
  assumes "unat processedLba < unat (drop_bit (TC_LB_SIZE_BIT_SHIFT_DIVISOR cfg) (EncryptedAreaStart (crypto_info w)))
         \<or> unat (drop_bit (TC_LB_SIZE_BIT_SHIFT_DIVISOR cfg) (EncryptedAreaStart (crypto_info w)))
           + unat (drop_bit (TC_LB_SIZE_BIT_SHIFT_DIVISOR cfg) (VolumeSize (crypto_info w))) < unat processedLba"
  shows "update_blocks_in_volume_header cfg sv processedLba encrypt w
         = (EFI_VOLUME_CORRUPTED, w\<lparr>trace := trace w @ [UpdateBlocksInVolumeHeader processedLba encrypt]\<rparr>)
       \<and> crypto_info (snd (update_blocks_in_volume_header cfg sv processedLba encrypt w)) = crypto_info w
       \<and> calls is_UpdateVolumeHeader (snd (update_blocks_in_volume_header cfg sv processedLba encrypt w))
         = calls is_UpdateVolumeHeader w"
proof -
  let ?s = "drop_bit (TC_LB_SIZE_BIT_SHIFT_DIVISOR cfg) (EncryptedAreaStart (crypto_info w))"
  let ?v = "drop_bit (TC_LB_SIZE_BIT_SHIFT_DIVISOR cfg) (VolumeSize (crypto_info w))"
  have "unat (?s + ?v) \<le> unat ?s + unat ?v"
    by (simp add: unat_word_ariths)
  with assms have out: "processedLba < ?s \<or> processedLba > ?s + ?v"
    by (auto simp: word_less_nat_alt)
  then show ?thesis
    by (simp add: update_blocks_in_volume_header_def Let_def emit_def calls_def)
qed

theorem update_blocks_out_of_range_witness:
  "update_blocks_in_volume_header (cs_build 9) example_services 5000 True example_world
     = (EFI_VOLUME_CORRUPTED, example_world\<lparr>trace := [UpdateBlocksInVolumeHeader 5000 True]\<rparr>)
   \<and> crypto_info (snd (update_blocks_in_volume_header (cs_build 9) example_services 5000 True example_world))
     = example_header"
  using update_blocks_out_of_range [where cfg = "cs_build 9" and w = example_world
      and processedLba = 5000 and sv = example_services and encrypt = True]
  by (simp add: cs_build_def example_world_def example_header_def drop_bit_eq_div)

subsection \<open>The invariant of the header\<close>

text \<open>
  Claim C7. Let the header satisfy \<open>0 \<le> EncryptedAreaLength \<le> VolumeSize\<close>. Then the
  invariant holds again after \<open>update_blocks_in_volume_header\<close>, whatever \<open>processedLba\<close> it is
  given, and every header it hands to \<open>update_volume_header\<close> satisfies it: the recomputed
  length never exceeds the volume size. A whole run of \<open>do_encrypt_decrypt_media\<close> that
  returns keeps the invariant and the volume size, persists only headers that satisfy it, and
  either never enters \<open>update_blocks_in_volume_header\<close> and leaves the header alone, or ends
  with one call of it on a state whose header is still the one of the entry; so the invariant
  holds immediately before and immediately after each invocation.
\<close>

theorem header_invariant_preserved:
  assumes "valid_header (crypto_info w)"
  shows "valid_header (crypto_info (snd (update_blocks_in_volume_header cfg sv p enc w)))
       \<and> (\<forall>ci\<in>set (persisted_headers (new_events w (snd (update_blocks_in_volume_header cfg sv p enc w)))).
            valid_header ci)
       \<and> (\<forall>st w'. do_encrypt_decrypt_media cfg sv enc w = Some (st, w') \<longrightarrow>
            valid_header (crypto_info w')
            \<and> VolumeSize (crypto_info w') = VolumeSize (crypto_info w)
            \<and> (\<forall>ci\<in>set (persisted_headers (new_events w w')). valid_header ci)
            \<and> (crypto_info w' = crypto_info w \<and> \<not> (\<exists>e\<in>set (new_events w w'). is_UpdateBlocksInVolumeHeader e)
                \<or> (\<exists>q wl. crypto_info wl = crypto_info w
                      \<and> (st, w') = update_blocks_in_volume_header cfg sv q enc wl)))"
proof (intro conjI allI impI)
  show "valid_header (crypto_info (snd (update_blocks_in_volume_header cfg sv p enc w)))"
    using update_blocks_valid [OF assms] by blast
  show "\<forall>ci\<in>set (persisted_headers (new_events w (snd (update_blocks_in_volume_header cfg sv p enc w)))).
            valid_header ci"
    using update_blocks_valid [OF assms] by blast
next
  fix st w'
  assume run: "do_encrypt_decrypt_media cfg sv enc w = Some (st, w')"
  note cases = do_encrypt_decrypt_media_cases [OF run]
  have main: "valid_header (crypto_info w') \<and> VolumeSize (crypto_info w') = VolumeSize (crypto_info w)
            \<and> (\<forall>ci\<in>set (persisted_headers (new_events w w')). valid_header ci)
            \<and> (crypto_info w' = crypto_info w \<and> \<not> (\<exists>e\<in>set (new_events w w'). is_UpdateBlocksInVolumeHeader e)
                \<or> (\<exists>q wl. crypto_info wl = crypto_info w
                      \<and> (st, w') = update_blocks_in_volume_header cfg sv q enc wl))"
    using cases
  proof (elim disjE exE conjE)
    assume "st = EFI_VOLUME_CORRUPTED" "w' = w"
    then show ?thesis using assms by (simp add: new_events_def)
  next
    assume "crypto_info w' = crypto_info w"
      "trace w' = trace w @ [ResetInput,
         AllocatePool (push_bit (TC_LB_SIZE_BIT_SHIFT_DIVISOR cfg) (CS_SERVICE_NUMBER_SECTORS cfg)) False]"
    then show ?thesis using assms by simp
  next
    fix v :: locals and wl es
    assume ci: "crypto_info wl = crypto_info w"
      and tr: "trace wl = trace w @ [ResetInput,
         AllocatePool (push_bit (TC_LB_SIZE_BIT_SHIFT_DIVISOR cfg) (CS_SERVICE_NUMBER_SECTORS cfg)) True] @ es"
      and ev: "\<forall>e\<in>set es. is_loop_event e"
      and fin: "if EFI_ERROR (error v) then st = error v \<and> w' = emit FreePoolBuffer wl
                else (st, w') = update_blocks_in_volume_header cfg sv
                         (if enc then lba v + drop_bit (TC_LB_SIZE_BIT_SHIFT_DIVISOR cfg) (EncryptedAreaStart (crypto_info w))
                          else lba v + drop_bit (TC_LB_SIZE_BIT_SHIFT_DIVISOR cfg) (EncryptedAreaStart (crypto_info w))
                               + bufferSectors v)
                         enc (emit FreePoolBuffer wl)"
    have noub: "\<not> (\<exists>e\<in>set es. is_UpdateBlocksInVolumeHeader e)"
    proof
      assume "\<exists>e\<in>set es. is_UpdateBlocksInVolumeHeader e"
      then obtain e where "e \<in> set es" "is_UpdateBlocksInVolumeHeader e" by blast
      with ev show False by (cases e) auto
    qed
    show ?thesis
    proof (cases "EFI_ERROR (error v)")
      case True
      with fin have "w' = emit FreePoolBuffer wl" by simp
      then show ?thesis using assms ci tr ev noub by (auto simp: new_events_def)
    next
      case False
      define q where "q = (if enc then lba v + drop_bit (TC_LB_SIZE_BIT_SHIFT_DIVISOR cfg) (EncryptedAreaStart (crypto_info w))
                          else lba v + drop_bit (TC_LB_SIZE_BIT_SHIFT_DIVISOR cfg) (EncryptedAreaStart (crypto_info w))
                               + bufferSectors v)"
      define wf where "wf = emit FreePoolBuffer wl"
      from False fin have r: "(st, w') = update_blocks_in_volume_header cfg sv q enc wf"
        by (simp add: q_def wf_def)
      have cf: "crypto_info wf = crypto_info w" by (simp add: wf_def ci)
      have vf: "valid_header (crypto_info wf)" using assms cf by simp
      have w': "w' = snd (update_blocks_in_volume_header cfg sv q enc wf)"
        using r by (metis snd_conv)
      from update_blocks_valid [OF vf, of cfg sv q enc]
      have a: "valid_header (crypto_info w')" and b: "VolumeSize (crypto_info w') = VolumeSize (crypto_info w)"
        and c: "\<forall>ci\<in>set (persisted_headers (new_events wf w')). valid_header ci"
        by (simp_all add: w' cf)
      have trf: "trace wf = trace w @ ([ResetInput,
         AllocatePool (push_bit (TC_LB_SIZE_BIT_SHIFT_DIVISOR cfg) (CS_SERVICE_NUMBER_SECTORS cfg)) True] @ es @ [FreePoolBuffer])"
        by (simp add: wf_def tr)
      from update_blocks_trace [of cfg sv q enc wf]
      obtain us where us: "trace w' = trace wf @ us"
        unfolding w' by blast
      have t1: "trace w' = trace w @ (([ResetInput,
         AllocatePool (push_bit (TC_LB_SIZE_BIT_SHIFT_DIVISOR cfg) (CS_SERVICE_NUMBER_SECTORS cfg)) True] @ es @ [FreePoolBuffer]) @ us)"
        using us trf by simp
      have n1: "new_events w w' = ([ResetInput,
         AllocatePool (push_bit (TC_LB_SIZE_BIT_SHIFT_DIVISOR cfg) (CS_SERVICE_NUMBER_SECTORS cfg)) True] @ es @ [FreePoolBuffer]) @ us"
        by (rule new_events_append [OF t1])
      have n2: "new_events wf w' = us" by (rule new_events_append [OF us])
      have "persisted_headers (new_events w w') = persisted_headers (new_events wf w')"
        unfolding n1 n2 using ev by simp
      with a b c cf r show ?thesis by auto
    qed
  qed
  then show "valid_header (crypto_info w')"
    and "VolumeSize (crypto_info w') = VolumeSize (crypto_info w)"
    and "\<forall>ci\<in>set (persisted_headers (new_events w w')). valid_header ci"
    and "crypto_info w' = crypto_info w \<and> \<not> (\<exists>e\<in>set (new_events w w'). is_UpdateBlocksInVolumeHeader e)
                \<or> (\<exists>q wl. crypto_info wl = crypto_info w
                      \<and> (st, w') = update_blocks_in_volume_header cfg sv q enc wl)"
    by blast+
qed

theorem header_invariant_preserved_witness:
  "valid_header (crypto_info example_world)
   \<and> valid_header (crypto_info (snd (update_blocks_in_volume_header (cs_build 9) example_services 2288 True
        example_world)))"
proof -
  have h: "valid_header (crypto_info example_world)"
    by (simp add: valid_header_def example_world_def example_header_def)
  from header_invariant_preserved [OF h, of "cs_build 9" example_services 2288 True]
  show ?thesis using h by blast
qed

subsection \<open>Runs on concrete input\<close>

text \<open>The equations that let the simplifier run the conversion on the concrete inputs.\<close>

lemmas run_simps = do_encrypt_decrypt_media_def initial_locals_def copy_loop.simps copy_chunk_def
  BlockIo_ReadBlocks_def BlockIo_WriteBlocks_def check_for_ESC_def dump_per_cent_def
  update_blocks_in_volume_header_def update_volume_header_def
  Let_def cs_build_def example_world_def example_header_def example_services_def
  EFI_ERROR_simps emit_def calls_def

subsection \<open>When the header is updated\<close>

lemma io_statuses_loop_free [simp]: "io_statuses [ResetInput, AllocatePool n b] = []"
  by simp

lemma filter_ubvh_loop_events:
  "\<forall>e\<in>set es. is_loop_event e \<Longrightarrow> filter is_UpdateBlocksInVolumeHeader es = []"
proof (induction es)
  case Nil
  then show ?case by simp
next
  case (Cons e es)
  then show ?case by (cases e) simp_all
qed


text \<open>
  Claim C1, as the code has it. Take a run of \<open>do_encrypt_decrypt_media\<close> that returns, in
  which the transfer buffer was allocated and the copy loop transferred at least one chunk.
  The status the function tests after the loop is the status of the last transfer. If that
  transfer succeeded (the loop ended by completion or by cancellation) the function enters
  \<open>update_blocks_in_volume_header\<close> exactly once, with the final cursor translated to a
  disk-relative LBA (plus the buffer's sector count when decrypting). If that transfer failed,
  \<open>update_blocks_in_volume_header\<close> is not entered at all: the guard \<open>!EFI_ERROR(error)\<close>
  skips it.
\<close>

theorem header_update_once_unless_io_failed:
  assumes run: "do_encrypt_decrypt_media cfg sv encrypt w = Some (st, w')"
    and alloc: "AllocatePool n True \<in> set (new_events w w')"
    and chunk: "io_statuses (new_events w w') \<noteq> []"
  shows "\<exists>v wl. copy_loop cfg sv encrypt (if encrypt then ChildBlockIo else ParentBlockIo)
                 (if encrypt then ParentBlockIo else ChildBlockIo) 0
                 (drop_bit (TC_LB_SIZE_BIT_SHIFT_DIVISOR cfg) (VolumeSize (crypto_info w)))
                 (initial_locals cfg sv encrypt (crypto_info w))
                 (emit (AllocatePool (push_bit (TC_LB_SIZE_BIT_SHIFT_DIVISOR cfg) (CS_SERVICE_NUMBER_SECTORS cfg)) True)
                    (emit ResetInput w)) = Some (v, wl)
          \<and> error v = last (io_statuses (new_events w w'))
          \<and> filter is_UpdateBlocksInVolumeHeader (new_events w w') =
              (if EFI_ERROR (last (io_statuses (new_events w w'))) then []
               else [UpdateBlocksInVolumeHeader
                       (if encrypt
                        then lba v + drop_bit (TC_LB_SIZE_BIT_SHIFT_DIVISOR cfg) (EncryptedAreaStart (crypto_info w))
                        else lba v + drop_bit (TC_LB_SIZE_BIT_SHIFT_DIVISOR cfg) (EncryptedAreaStart (crypto_info w))
                             + bufferSectors v)
                       encrypt])"
  using do_encrypt_decrypt_media_cases [OF run]
proof (elim disjE exE conjE)
  assume "w' = w"
  with alloc show ?thesis by (simp add: new_events_def)
next
  assume "trace w' = trace w @ [ResetInput,
      AllocatePool (push_bit (TC_LB_SIZE_BIT_SHIFT_DIVISOR cfg) (CS_SERVICE_NUMBER_SECTORS cfg)) False]"
  with alloc show ?thesis by simp
next
  fix v :: locals and wl es
  let ?pre = "[ResetInput,
      AllocatePool (push_bit (TC_LB_SIZE_BIT_SHIFT_DIVISOR cfg) (CS_SERVICE_NUMBER_SECTORS cfg)) True]"
  let ?q = "if encrypt
            then lba v + drop_bit (TC_LB_SIZE_BIT_SHIFT_DIVISOR cfg) (EncryptedAreaStart (crypto_info w))
            else lba v + drop_bit (TC_LB_SIZE_BIT_SHIFT_DIVISOR cfg) (EncryptedAreaStart (crypto_info w))
                 + bufferSectors v"
  assume L: "copy_loop cfg sv encrypt (if encrypt then ChildBlockIo else ParentBlockIo)
                 (if encrypt then ParentBlockIo else ChildBlockIo) 0
                 (drop_bit (TC_LB_SIZE_BIT_SHIFT_DIVISOR cfg) (VolumeSize (crypto_info w)))
                 (initial_locals cfg sv encrypt (crypto_info w))
                 (emit (AllocatePool (push_bit (TC_LB_SIZE_BIT_SHIFT_DIVISOR cfg) (CS_SERVICE_NUMBER_SECTORS cfg)) True)
                    (emit ResetInput w)) = Some (v, wl)"
    and tr: "trace wl = trace w @ ?pre @ es"
    and ev: "\<forall>e\<in>set es. is_loop_event e"
    and io: "if numberSectors (initial_locals cfg sv encrypt (crypto_info w)) = 0
             then es = [] \<and> v = initial_locals cfg sv encrypt (crypto_info w)
             else io_statuses es \<noteq> [] \<and> error v = last (io_statuses es)"
    and fin: "if EFI_ERROR (error v) then st = error v \<and> w' = emit FreePoolBuffer wl
              else (st, w') = update_blocks_in_volume_header cfg sv ?q encrypt (emit FreePoolBuffer wl)"
  define wf where "wf = emit FreePoolBuffer wl"
  have trf: "trace wf = trace w @ (?pre @ es @ [FreePoolBuffer])"
    by (simp add: wf_def tr)
  obtain us where us: "trace w' = trace wf @ us"
    and ub: "filter is_UpdateBlocksInVolumeHeader us =
               (if EFI_ERROR (error v) then [] else [UpdateBlocksInVolumeHeader ?q encrypt])"
    and ios: "io_statuses us = []"
  proof (cases "EFI_ERROR (error v)")
    case True
    with fin have "trace w' = trace wf @ []" by (simp add: wf_def)
    with True that show ?thesis by simp
  next
    case False
    with fin have "w' = snd (update_blocks_in_volume_header cfg sv ?q encrypt wf)"
      unfolding wf_def by (metis snd_conv)
    with update_blocks_trace [of cfg sv ?q encrypt wf] False that show ?thesis by auto
  qed
  have t1: "trace w' = trace w @ ((?pre @ es @ [FreePoolBuffer]) @ us)"
    using us trf by simp
  have ne: "new_events w w' = (?pre @ es @ [FreePoolBuffer]) @ us"
    by (rule new_events_append [OF t1])
  have ios': "io_statuses (new_events w w') = io_statuses es"
    unfolding ne using ios by simp
  with chunk have "es \<noteq> []" by auto
  with io have err: "error v = last (io_statuses es)" by (auto split: if_splits)
  have "filter is_UpdateBlocksInVolumeHeader (new_events w w') = filter is_UpdateBlocksInVolumeHeader us"
    unfolding ne using filter_ubvh_loop_events [OF ev] by simp
  with ub err ios' L show ?thesis by simp
qed

theorem header_update_once_unless_io_failed_witness:
  "filter is_UpdateBlocksInVolumeHeader
     (new_events example_world
        (snd (the (do_encrypt_decrypt_media (cs_build 9) cancelling_services True example_world))))
   = [UpdateBlocksInVolumeHeader 2288 True]"
proof -
  let ?r = "the (do_encrypt_decrypt_media (cs_build 9) cancelling_services True example_world)"
  have run: "do_encrypt_decrypt_media (cs_build 9) cancelling_services True example_world
             = Some (fst ?r, snd ?r)"
    by (simp add: run_simps cancelling_services_def)
  have alloc: "AllocatePool 40960 True \<in> set (new_events example_world (snd ?r))"
    by (simp add: run_simps cancelling_services_def new_events_def)
  have chunk: "io_statuses (new_events example_world (snd ?r)) \<noteq> []"
    by (simp add: run_simps cancelling_services_def new_events_def)
  have last: "last (io_statuses (new_events example_world (snd ?r))) = EFI_SUCCESS"
    by (simp add: run_simps cancelling_services_def new_events_def)
  from header_update_once_unless_io_failed [OF run alloc chunk]
  obtain v wl where
    L: "copy_loop (cs_build 9) cancelling_services True ChildBlockIo ParentBlockIo 0
          (drop_bit (TC_LB_SIZE_BIT_SHIFT_DIVISOR (cs_build 9)) (VolumeSize (crypto_info example_world)))
          (initial_locals (cs_build 9) cancelling_services True (crypto_info example_world))
          (emit (AllocatePool (push_bit (TC_LB_SIZE_BIT_SHIFT_DIVISOR (cs_build 9))
                   (CS_SERVICE_NUMBER_SECTORS (cs_build 9))) True) (emit ResetInput example_world))
        = Some (v, wl)"
    and F: "filter is_UpdateBlocksInVolumeHeader (new_events example_world (snd ?r)) =
        [UpdateBlocksInVolumeHeader
           (lba v + drop_bit (TC_LB_SIZE_BIT_SHIFT_DIVISOR (cs_build 9))
                      (EncryptedAreaStart (crypto_info example_world))) True]"
    by (auto simp: last EFI_ERROR_simps)
  from L have "lba v = 240"
    by (auto simp: run_simps cancelling_services_def)
  with F show ?thesis
    by (simp add: cs_build_def example_world_def example_header_def)
qed

text \<open>
  Claim C1 as stated fails: the buffer is allocated, the first read fails, the loop is left
  and the function returns the read's error without entering
  \<open>update_blocks_in_volume_header\<close>.
\<close>

theorem header_update_skipped_after_read_failure:
  "do_encrypt_decrypt_media (cs_build 9) failing_read_services True example_world
   = Some (EFI_DEVICE_ERROR,
       example_world\<lparr>trace := [ResetInput, AllocatePool 40960 True,
          ReadBlocks ChildBlockIo 0 40960 EFI_DEVICE_ERROR, FreePoolBuffer]\<rparr>)
   \<and> filter is_UpdateBlocksInVolumeHeader [ResetInput, AllocatePool 40960 True,
          ReadBlocks ChildBlockIo 0 40960 EFI_DEVICE_ERROR, FreePoolBuffer] = []"
  by (simp add: run_simps failing_read_services_def)

subsection \<open>The status after a loop that never ran\<close>

text \<open>
  Claim C10 says that the local \<open>error\<close> is assigned before it is read on every path. On a
  volume that is already encrypted throughout, encrypting finds nothing to do: the buffer is
  allocated, the loop body never runs and no transfer is issued. The test after the loop then
  reads \<open>error\<close>, which no statement has assigned. With two environments that differ in
  nothing but the content of that stack slot, the function returns success and writes the
  header in one, and returns the stray error code without writing the header in the other.
\<close>

theorem status_read_before_assignment:
  "do_encrypt_decrypt_media (cs_build 9) example_services True encrypted_world
   = Some (EFI_SUCCESS,
       encrypted_world\<lparr>trace := [ResetInput, AllocatePool 40960 True, FreePoolBuffer,
          UpdateBlocksInVolumeHeader 3048 True, UpdateVolumeHeader encrypted_header EFI_SUCCESS]\<rparr>)
   \<and> do_encrypt_decrypt_media (cs_build 9) garbage_services True encrypted_world
   = Some (EFI_DEVICE_ERROR,
       encrypted_world\<lparr>trace := [ResetInput, AllocatePool 40960 True, FreePoolBuffer]\<rparr>)
   \<and> garbage_services = example_services\<lparr>sv_error_garbage := EFI_DEVICE_ERROR\<rparr>"
  by (simp add: run_simps garbage_services_def encrypted_world_def encrypted_header_def)

subsection \<open>Device discovery\<close>

lemma scan_open_info_no_match:
  "\<forall>x\<in>set es. \<not> passes_probe sv P x \<Longrightarrow>
   scan_open_info sv P es w = (NULL, w\<lparr>trace := trace w @ probe_events P es\<rparr>)"
  by (induction es arbitrary: w)
     (simp_all add: passes_probe_def is_child_controller_def probe_events_def is_cs_child_device_def
        Let_def emit_def)

lemma scan_open_info_first_match:
  "\<forall>x\<in>set pre. \<not> passes_probe sv P x \<Longrightarrow> passes_probe sv P e \<Longrightarrow>
   scan_open_info sv P (pre @ e # post) w =
     (ControllerHandle e,
      w\<lparr>trace := trace w @ probe_events P pre @ [IsCsChildDevice P (ControllerHandle e) True]\<rparr>)"
  by (induction pre arbitrary: w)
     (simp_all add: passes_probe_def is_child_controller_def probe_events_def is_cs_child_device_def
        Let_def emit_def)


text \<open>
  Claim C9. Let \<open>OpenProtocolInformation\<close> succeed. If no enumerated entry both carries the
  child-controller attribute and passes the identity probe, \<open>get_cs_child\<close> returns its
  no-match error (the status \<open>EFI_NO_MEDIA\<close>) with \<open>*ChildHandle = NULL\<close>, however many
  candidates with the attribute there were; each of them was probed. Otherwise the first
  entry that passes is accepted: \<open>*ChildHandle\<close> is its controller handle, the probe was
  called on the candidates before it and on it, and on no later entry; the status is the one
  of the enumeration (or \<open>EFI_NO_MEDIA\<close> should that handle be \<open>NULL\<close>). On both paths the
  enumeration buffer, when there is one, is freed exactly once, as the last event.
\<close>

theorem get_cs_child_first_match:
  assumes "sv_OpenProtocolInformation sv = (st, OpenInfo)" and "\<not> EFI_ERROR st"
    and "entries = (case OpenInfo of None \<Rightarrow> [] | Some es \<Rightarrow> es)"
  shows "(\<not> (\<exists>e\<in>set entries. passes_probe sv ParentHandle e) \<longrightarrow>
            get_cs_child sv ParentHandle w =
              (EFI_NO_MEDIA, NULL,
               w\<lparr>trace := trace w @ [OpenProtocolInformation ParentHandle st] @ probe_events ParentHandle entries
                            @ (if OpenInfo = None then [] else [FreePoolOpenInfo])\<rparr>))
       \<and> (\<forall>pre e post. entries = pre @ e # post \<and> passes_probe sv ParentHandle e
              \<and> (\<forall>x\<in>set pre. \<not> passes_probe sv ParentHandle x) \<longrightarrow>
            get_cs_child sv ParentHandle w =
              (if ControllerHandle e = NULL then EFI_NO_MEDIA else st, ControllerHandle e,
               w\<lparr>trace := trace w @ [OpenProtocolInformation ParentHandle st] @ probe_events ParentHandle pre
                            @ [IsCsChildDevice ParentHandle (ControllerHandle e) True, FreePoolOpenInfo]\<rparr>))"
proof (intro conjI allI impI)
  assume "\<not> (\<exists>e\<in>set entries. passes_probe sv ParentHandle e)"
  then have "\<forall>x\<in>set entries. \<not> passes_probe sv ParentHandle x" by blast
  from scan_open_info_no_match [OF this] assms
  show "get_cs_child sv ParentHandle w =
              (EFI_NO_MEDIA, NULL,
               w\<lparr>trace := trace w @ [OpenProtocolInformation ParentHandle st] @ probe_events ParentHandle entries
                            @ (if OpenInfo = None then [] else [FreePoolOpenInfo])\<rparr>)"
    by (simp add: get_cs_child_def Let_def emit_def)
next
  fix pre e post
  assume a: "entries = pre @ e # post \<and> passes_probe sv ParentHandle e
              \<and> (\<forall>x\<in>set pre. \<not> passes_probe sv ParentHandle x)"
  then have ne: "OpenInfo \<noteq> None" using assms(3) by (auto split: option.splits)
  from a have "\<forall>x\<in>set pre. \<not> passes_probe sv ParentHandle x" and "passes_probe sv ParentHandle e"
    by blast+
  from scan_open_info_first_match [OF this] a assms ne
  show "get_cs_child sv ParentHandle w =
              (if ControllerHandle e = NULL then EFI_NO_MEDIA else st, ControllerHandle e,
               w\<lparr>trace := trace w @ [OpenProtocolInformation ParentHandle st] @ probe_events ParentHandle pre
                            @ [IsCsChildDevice ParentHandle (ControllerHandle e) True, FreePoolOpenInfo]\<rparr>)"
    by (simp add: get_cs_child_def Let_def emit_def)
qed

theorem get_cs_child_first_match_witness:
  "get_cs_child example_services 1 example_world =
     (EFI_SUCCESS, 3,
      example_world\<lparr>trace := [OpenProtocolInformation 1 EFI_SUCCESS, IsCsChildDevice 1 2 False,
                               IsCsChildDevice 1 3 True, FreePoolOpenInfo]\<rparr>)"
proof -
  let ?es = "[\<lparr>ControllerHandle = 7, Attributes = 2\<rparr>, \<lparr>ControllerHandle = 2, Attributes = 8\<rparr>,
              \<lparr>ControllerHandle = 3, Attributes = 8\<rparr>, \<lparr>ControllerHandle = 4, Attributes = 8\<rparr>]
             :: EFI_OPEN_PROTOCOL_INFORMATION_ENTRY list"
  have 1: "sv_OpenProtocolInformation example_services = (EFI_SUCCESS, Some ?es)"
    by (simp add: example_services_def)
  have 2: "\<not> EFI_ERROR EFI_SUCCESS" by (simp add: EFI_ERROR_simps)
  have 3: "?es = (case Some ?es of None \<Rightarrow> [] | Some es \<Rightarrow> es)" by simp
  have 4: "?es = [\<lparr>ControllerHandle = 7, Attributes = 2\<rparr>, \<lparr>ControllerHandle = 2, Attributes = 8\<rparr>]
             @ \<lparr>ControllerHandle = 3, Attributes = 8\<rparr> # [\<lparr>ControllerHandle = 4, Attributes = 8\<rparr>]
           \<and> passes_probe example_services 1 \<lparr>ControllerHandle = 3, Attributes = 8\<rparr>
           \<and> (\<forall>x\<in>set [\<lparr>ControllerHandle = 7, Attributes = 2\<rparr>, \<lparr>ControllerHandle = 2, Attributes = 8\<rparr>].
                 \<not> passes_probe example_services 1 x)"
    by (simp add: passes_probe_def is_child_controller_def example_services_def
        EFI_OPEN_PROTOCOL_BY_CHILD_CONTROLLER_def)
  from get_cs_child_first_match [OF 1 2 3, of 1 example_world, THEN conjunct2, rule_format, OF 4]
  show ?thesis
    by (simp add: probe_events_def is_child_controller_def EFI_OPEN_PROTOCOL_BY_CHILD_CONTROLLER_def
        NULL_def example_world_def)
qed


subsection \<open>Opening the two Block I/O interfaces\<close>

text \<open>
  Claim C8, as the code has it. A failure return of \<open>open_blockio_protocols\<close> is one of two
  runs. Either the parent's interface could not be opened: nothing else is called and nothing
  is open that was not open before. Or the parent's interface was opened and the child's was
  not: then \<open>CloseProtocol\<close> is called on the parent's handle before the child's error is
  returned, and if that call succeeds the open interfaces are those from before the call. A
  failing \<open>CloseProtocol\<close> is only logged.
\<close>

theorem open_blockio_protocols_all_or_nothing:
  assumes "EFI_ERROR (fst (open_blockio_protocols sv parentHandle childHandle w))"
  shows "(\<exists>st1. EFI_ERROR st1
            \<and> open_blockio_protocols sv parentHandle childHandle w
              = (st1, w\<lparr>trace := trace w @ [OpenProtocol parentHandle st1]\<rparr>)
            \<and> open_interfaces [OpenProtocol parentHandle st1] hs = hs)
       \<or> (\<exists>st1 st2 st3. \<not> EFI_ERROR st1 \<and> EFI_ERROR st2
            \<and> open_blockio_protocols sv parentHandle childHandle w
              = (st2, w\<lparr>trace := trace w @ [OpenProtocol parentHandle st1, OpenProtocol childHandle st2,
                                            CloseProtocol parentHandle st3]\<rparr>)
            \<and> (\<not> EFI_ERROR st3 \<longrightarrow>
                 open_interfaces [OpenProtocol parentHandle st1, OpenProtocol childHandle st2,
                                  CloseProtocol parentHandle st3] hs = hs))"
  using assms
  by (auto simp: open_blockio_protocols_def open_blockio_protocol_def close_blockio_protocol_def
      Let_def emit_def calls_def split: if_splits)

theorem open_blockio_protocols_all_or_nothing_witness:
  "open_blockio_protocols child_open_failing_services 1 3 example_world
     = (EFI_DEVICE_ERROR,
        example_world\<lparr>trace := [OpenProtocol 1 EFI_SUCCESS, OpenProtocol 3 EFI_DEVICE_ERROR,
                                 CloseProtocol 1 EFI_SUCCESS]\<rparr>)
   \<and> open_interfaces [OpenProtocol 1 EFI_SUCCESS, OpenProtocol 3 EFI_DEVICE_ERROR,
                      CloseProtocol 1 EFI_SUCCESS] [] = []"
  using open_blockio_protocols_all_or_nothing [of child_open_failing_services 1 3 example_world "[]"]
  by (simp add: open_blockio_protocols_def open_blockio_protocol_def close_blockio_protocol_def
      Let_def emit_def calls_def example_world_def example_services_def child_open_failing_services_def
      EFI_ERROR_simps)

text \<open>
  Claim C8 as stated fails: when the child's interface cannot be opened and closing the
  parent's interface fails too, the function returns the child's error while the parent's
  interface (handle 1) is still open.
\<close>

theorem parent_left_open_when_close_fails:
  "open_blockio_protocols close_failing_services 1 3 example_world
     = (EFI_DEVICE_ERROR,
        example_world\<lparr>trace := [OpenProtocol 1 EFI_SUCCESS, OpenProtocol 3 EFI_DEVICE_ERROR,
                                 CloseProtocol 1 EFI_DEVICE_ERROR]\<rparr>)
   \<and> open_interfaces [OpenProtocol 1 EFI_SUCCESS, OpenProtocol 3 EFI_DEVICE_ERROR,
                      CloseProtocol 1 EFI_DEVICE_ERROR] [] = [1]"
  by (simp add: open_blockio_protocols_def open_blockio_protocol_def close_blockio_protocol_def
      Let_def emit_def calls_def example_world_def example_services_def close_failing_services_def
      child_open_failing_services_def
      EFI_ERROR_simps)

subsection \<open>Escape at the first password prompt\<close>

text \<open>
  Claim C2, as the code has it. Suppose the prompt is put out without error and the user
  answers the first password prompt with the escape key (scan code \<open>0x17\<close>). Then
  \<open>check_user_password\<close> returns success with the decision \<open>CS_UI_ESC_PRESSED\<close>, and
  \<open>encrypt_decrypt_media\<close> returns success after it has set \<open>*user_decision\<close> back to
  \<open>CS_UI_SERVICE_MENU\<close>. The only calls made are the output of the line feeds (unless
  silent), the prompt and the input: the driver is not started and no block is read or
  written.
\<close>

theorem escape_at_first_prompt:
  assumes out: "silent flags \<or> \<not> EFI_ERROR (sv_OutputString sv (calls is_OutputString w))"
    and ask: "\<not> EFI_ERROR (sv_ask_for_pwd sv (calls is_AskForPwd w))"
    and inp: "sv_get_input sv (calls is_GetInput w) = (st, 0x17, txt)"
    and ok: "\<not> EFI_ERROR st"
    and w': "w' = w\<lparr>trace := trace w
                   @ (if silent flags then []
                      else [OutputString [CHR 0x0D, CHR 0x0A, CHR 0x0A, CHR 0x20]
                              (sv_OutputString sv (calls is_OutputString w))])
                   @ [AskForPwd False (sv_ask_for_pwd sv (calls is_AskForPwd w)), GetInput st]\<rparr>"
  shows "check_user_password sv flags CS_UI_SERVICE_MENU passwd w
           = Some (EFI_SUCCESS, CS_UI_ESC_PRESSED, passwd\<lparr>Text := txt\<rparr>, w')
       \<and> encrypt_decrypt_media cfg sv flags encrypt passwd w
           = Some (EFI_SUCCESS, CS_UI_SERVICE_MENU, passwd\<lparr>Text := txt\<rparr>, w')
       \<and> filter is_StartConnectFakeCryptoDriver (new_events w w') = []
       \<and> io_statuses (new_events w w') = []"
proof -
  have cup: "check_user_password sv flags CS_UI_SERVICE_MENU passwd w
           = Some (EFI_SUCCESS, CS_UI_ESC_PRESSED, passwd\<lparr>Text := txt\<rparr>, w')"
    using out ask inp ok
    by (auto simp: check_user_password_def password_loop.simps ConOut_OutputString_def ask_for_pwd_def
        get_input_def Let_def emit_def calls_def w')
  then have "encrypt_decrypt_media cfg sv flags encrypt passwd w
           = Some (EFI_SUCCESS, CS_UI_SERVICE_MENU, passwd\<lparr>Text := txt\<rparr>, w')"
    by (simp add: encrypt_decrypt_media_def EFI_ERROR_simps)
  moreover have "filter is_StartConnectFakeCryptoDriver (new_events w w') = []"
    "io_statuses (new_events w w') = []"
    by (simp_all add: w' new_events_def)
  ultimately show ?thesis using cup by simp
qed

theorem escape_at_first_prompt_witness:
  "encrypt_decrypt_media (cs_build 9) escaping_services example_flags True example_passwd example_world
     = Some (EFI_SUCCESS, CS_UI_SERVICE_MENU, example_passwd,
         example_world\<lparr>trace := [OutputString [CHR 0x0D, CHR 0x0A, CHR 0x0A, CHR 0x20] EFI_SUCCESS,
                                  AskForPwd False EFI_SUCCESS, GetInput EFI_SUCCESS]\<rparr>)"
proof -
  have 1: "silent example_flags
           \<or> \<not> EFI_ERROR (sv_OutputString escaping_services (calls is_OutputString example_world))"
    by (simp add: escaping_services_def example_services_def EFI_ERROR_simps)
  have 2: "\<not> EFI_ERROR (sv_ask_for_pwd escaping_services (calls is_AskForPwd example_world))"
    by (simp add: escaping_services_def example_services_def EFI_ERROR_simps)
  have 3: "sv_get_input escaping_services (calls is_GetInput example_world) = (EFI_SUCCESS, 0x17, [])"
    by (simp add: escaping_services_def example_services_def)
  have 4: "\<not> EFI_ERROR EFI_SUCCESS" by (simp add: EFI_ERROR_simps)
  from escape_at_first_prompt [OF 1 2 3 4 refl, of example_passwd "cs_build 9" True]
  show ?thesis
    by (simp add: escaping_services_def example_services_def example_flags_def example_passwd_def
        example_world_def calls_def)
qed


text \<open>
  Claim C2 as stated fails in its last part: after escape at the first prompt the decision
  that \<open>encrypt_decrypt_media\<close> hands back is \<open>CS_UI_SERVICE_MENU\<close>, not \<open>CS_UI_ESC_PRESSED\<close>.
\<close>

theorem escape_yields_service_menu:
  "encrypt_decrypt_media (cs_build 9) escaping_services example_flags True example_passwd example_world
     = Some (EFI_SUCCESS, CS_UI_SERVICE_MENU, example_passwd,
         example_world\<lparr>trace := [OutputString [CHR 0x0D, CHR 0x0A, CHR 0x0A, CHR 0x20] EFI_SUCCESS,
                                  AskForPwd False EFI_SUCCESS, GetInput EFI_SUCCESS]\<rparr>)
   \<and> CS_UI_SERVICE_MENU \<noteq> CS_UI_ESC_PRESSED"
  by (simp add: encrypt_decrypt_media_def check_user_password_def password_loop.simps
      ConOut_OutputString_def ask_for_pwd_def get_input_def Let_def emit_def calls_def
      escaping_services_def example_services_def example_flags_def example_passwd_def
      example_world_def EFI_ERROR_simps)

subsection \<open>Running a conversion to completion\<close>

lemma copy_chunk_ok:
  fixes cfg sv enc src dst s V v w
  assumes "\<forall>k. \<not> EFI_ERROR (sv_ReadBlocks sv k)" "\<forall>k. \<not> EFI_ERROR (sv_WriteBlocks sv k)"
    "\<forall>k. \<not> sv_check_for_ESC sv k"
  defines "c \<equiv> copy_chunk cfg sv enc src dst s V v w"
  shows "\<not> fst c"
    and "numberSectors (fst (snd c)) = numberSectors v - bufferSectors v"
    and "bufferSectors (fst (snd c))
         = (if numberSectors v - bufferSectors v < bufferSectors v
            then numberSectors v - bufferSectors v else bufferSectors v)"
    and "lba (fst (snd c))
         = (if enc then lba v + bufferSectors v
            else lba v - (if numberSectors v - bufferSectors v < bufferSectors v
                          then numberSectors v - bufferSectors v else bufferSectors v))"
    and "\<not> EFI_ERROR (error (fst (snd c)))"
    and "crypto_info (snd (snd c)) = crypto_info w"
  using assms(1-3)
  by (simp_all add: c_def copy_chunk_def Let_def BlockIo_ReadBlocks_def BlockIo_WriteBlocks_def
      check_for_ESC_def dump_per_cent_def)

lemma copy_loop_completes:
  assumes H: "\<forall>k. \<not> EFI_ERROR (sv_ReadBlocks sv k)" "\<forall>k. \<not> EFI_ERROR (sv_WriteBlocks sv k)"
    "\<forall>k. \<not> sv_check_for_ESC sv k"
    and I: "bufferSectors v \<le> numberSectors v" "0 < numberSectors v \<longrightarrow> 0 < bufferSectors v"
  shows "\<exists>v' w'. copy_loop cfg sv enc src dst s V v w = Some (v', w')
           \<and> numberSectors v' = 0 \<and> crypto_info w' = crypto_info w
           \<and> (enc \<longrightarrow> lba v' = lba v + numberSectors v)
           \<and> (\<not> enc \<longrightarrow> lba v = numberSectors v - bufferSectors v \<longrightarrow> lba v' + bufferSectors v' = 0)
           \<and> (0 < numberSectors v \<longrightarrow> \<not> EFI_ERROR (error v'))
           \<and> (numberSectors v = 0 \<longrightarrow> v' = v)"
  using I
proof (induction "unat (numberSectors v)" arbitrary: v w rule: less_induct)
  case less
  show ?case
  proof (cases "numberSectors v = 0")
    case True
    with less.prems show ?thesis
      by (subst copy_loop.simps) (auto simp: word_le_nat_alt)
  next
    case False
    then have pos: "0 < numberSectors v" by (simp add: word_greater_zero_iff)
    with less.prems have bpos: "0 < bufferSectors v" by simp
    define c where "c = copy_chunk cfg sv enc src dst s V v w"
    define v1 where "v1 = fst (snd c)"
    define w1 where "w1 = snd (snd c)"
    note ck = copy_chunk_ok [OF H, of cfg enc src dst s V v w, folded c_def]
    have ns1: "numberSectors v1 = numberSectors v - bufferSectors v" using ck(2) by (simp add: v1_def)
    have b1: "bufferSectors v1 = (if numberSectors v1 < bufferSectors v then numberSectors v1 else bufferSectors v)"
      using ck(3) ns1 by (simp add: v1_def)
    have l1: "lba v1 = (if enc then lba v + bufferSectors v else lba v - bufferSectors v1)"
      using ck(4) ck(3) by (simp add: v1_def)
    have e1: "\<not> EFI_ERROR (error v1)" using ck(5) by (simp add: v1_def)
    have c1: "crypto_info w1 = crypto_info w" using ck(6) by (simp add: w1_def)
    have unat1: "unat (numberSectors v1) = unat (numberSectors v) - unat (bufferSectors v)"
      unfolding ns1 using less.prems(1) by (rule unat_sub)
    have "unat (bufferSectors v) > 0" using bpos by (simp add: word_less_nat_alt)
    moreover have "unat (bufferSectors v) \<le> unat (numberSectors v)"
      using less.prems(1) by (simp add: word_le_nat_alt)
    ultimately have dec: "unat (numberSectors v1) < unat (numberSectors v)"
      using unat1 by linarith
    have I1: "bufferSectors v1 \<le> numberSectors v1"
      unfolding b1 by (auto simp: word_le_nat_alt word_less_nat_alt)
    have I2: "0 < numberSectors v1 \<longrightarrow> 0 < bufferSectors v1"
      unfolding b1 using bpos by auto
    from less.hyps [OF dec I1 I2, of w1]
    obtain v' w' where
      L1: "copy_loop cfg sv enc src dst s V v1 w1 = Some (v', w')"
      and r1: "numberSectors v' = 0" and r2: "crypto_info w' = crypto_info w1"
      and r3: "enc \<longrightarrow> lba v' = lba v1 + numberSectors v1"
      and r4: "\<not> enc \<longrightarrow> lba v1 = numberSectors v1 - bufferSectors v1 \<longrightarrow> lba v' + bufferSectors v' = 0"
      and r5: "0 < numberSectors v1 \<longrightarrow> \<not> EFI_ERROR (error v')"
      and r6: "numberSectors v1 = 0 \<longrightarrow> v' = v1"
      by blast
    have L: "copy_loop cfg sv enc src dst s V v w = Some (v', w')"
      using pos ck(1) L1
      by (subst copy_loop.simps) (simp add: Let_def c_def [symmetric] v1_def [symmetric] w1_def [symmetric])
    have a: "enc \<longrightarrow> lba v' = lba v + numberSectors v"
      using r3 l1 ns1 by simp
    have b: "\<not> enc \<longrightarrow> lba v = numberSectors v - bufferSectors v \<longrightarrow> lba v' + bufferSectors v' = 0"
      using r4 l1 ns1 by simp
    have e: "\<not> EFI_ERROR (error v')"
      using r5 r6 e1 by (cases "numberSectors v1 = 0") (auto simp: word_greater_zero_iff)
    from L r1 r2 c1 a b e False show ?thesis by simp
  qed
qed

lemma copy_loop_completes_from_any_count:
  assumes H: "\<forall>k. \<not> EFI_ERROR (sv_ReadBlocks sv k)" "\<forall>k. \<not> EFI_ERROR (sv_WriteBlocks sv k)"
    "\<forall>k. \<not> sv_check_for_ESC sv k"
    and bpos: "0 < bufferSectors v"
  shows "\<exists>v' w'. copy_loop cfg sv True src dst s V v w = Some (v', w')
           \<and> numberSectors v' = 0 \<and> crypto_info w' = crypto_info w
           \<and> lba v' = lba v + numberSectors v
           \<and> (0 < numberSectors v \<longrightarrow> \<not> EFI_ERROR (error v'))
           \<and> (numberSectors v = 0 \<longrightarrow> v' = v)"
proof (cases "numberSectors v = 0")
  case True
  then show ?thesis by (subst copy_loop.simps) simp
next
  case False
  then have pos: "0 < numberSectors v" by (simp add: word_greater_zero_iff)
  define c where "c = copy_chunk cfg sv True src dst s V v w"
  define v1 where "v1 = fst (snd c)"
  define w1 where "w1 = snd (snd c)"
  note ck = copy_chunk_ok [OF H, of cfg True src dst s V v w, folded c_def]
  have ns1: "numberSectors v1 = numberSectors v - bufferSectors v" using ck(2) by (simp add: v1_def)
  have b1: "bufferSectors v1 = (if numberSectors v1 < bufferSectors v then numberSectors v1 else bufferSectors v)"
    using ck(3) ns1 by (simp add: v1_def)
  have l1: "lba v1 = lba v + bufferSectors v" using ck(4) by (simp add: v1_def)
  have e1: "\<not> EFI_ERROR (error v1)" using ck(5) by (simp add: v1_def)
  have c1: "crypto_info w1 = crypto_info w" using ck(6) by (simp add: w1_def)
  have I1: "bufferSectors v1 \<le> numberSectors v1"
    unfolding b1 by (auto simp: word_le_nat_alt word_less_nat_alt)
  have I2: "0 < numberSectors v1 \<longrightarrow> 0 < bufferSectors v1"
    unfolding b1 using bpos by auto
  from copy_loop_completes [OF H I1 I2, of cfg True src dst s V w1]
  obtain v' w' where
    L1: "copy_loop cfg sv True src dst s V v1 w1 = Some (v', w')"
    and r1: "numberSectors v' = 0" and r2: "crypto_info w' = crypto_info w1"
    and r3: "lba v' = lba v1 + numberSectors v1"
    and r5: "0 < numberSectors v1 \<longrightarrow> \<not> EFI_ERROR (error v')"
    and r6: "numberSectors v1 = 0 \<longrightarrow> v' = v1"
    by blast
  have L: "copy_loop cfg sv True src dst s V v w = Some (v', w')"
    using pos ck(1) L1
    by (subst copy_loop.simps) (simp add: Let_def c_def [symmetric] v1_def [symmetric] w1_def [symmetric])
  have a: "lba v' = lba v + numberSectors v" using r3 l1 ns1 by simp
  have e: "\<not> EFI_ERROR (error v')"
    using r5 r6 e1 by (cases "numberSectors v1 = 0") (auto simp: word_greater_zero_iff)
  from L r1 r2 c1 a e False show ?thesis by simp
qed

lemma in_range_after_encrypt:
  fixes a V :: "64 word"
  assumes "0 < sh"
  shows "\<not> (drop_bit sh V + drop_bit sh a < drop_bit sh a
          \<or> drop_bit sh a + drop_bit sh V < drop_bit sh V + drop_bit sh a)"
proof -
  have "unat (drop_bit sh V + drop_bit sh a) = unat (drop_bit sh V) + unat (drop_bit sh a)"
    using start_plus_no_wrap [OF assms, of V a] by (simp add: unat_add_lem [THEN iffD1])
  then have "\<not> drop_bit sh V + drop_bit sh a < drop_bit sh a"
    by (simp add: word_less_nat_alt)
  then show ?thesis by (simp add: add.commute)
qed

lemma in_range_after_decrypt:
  fixes a V :: "64 word"
  assumes "0 < sh"
  shows "\<not> (drop_bit sh a < drop_bit sh a \<or> drop_bit sh a + drop_bit sh V < drop_bit sh a)"
proof -
  have "unat (drop_bit sh a + drop_bit sh V) = unat (drop_bit sh a) + unat (drop_bit sh V)"
    using start_plus_no_wrap [OF assms, of a V] by (simp add: unat_add_lem [THEN iffD1])
  then have "\<not> drop_bit sh a + drop_bit sh V < drop_bit sh a"
    by (simp add: word_less_nat_alt)
  then show ?thesis by simp
qed

lemma do_encrypt_completes:
  assumes H: "\<forall>k. \<not> EFI_ERROR (sv_ReadBlocks sv k)" "\<forall>k. \<not> EFI_ERROR (sv_WriteBlocks sv k)"
    "\<forall>k. \<not> sv_check_for_ESC sv k"
    and U: "\<forall>k. \<not> EFI_ERROR (sv_update_volume_header sv k)"
    and alloc: "sv_AllocatePool sv"
    and sh: "0 < TC_LB_SIZE_BIT_SHIFT_DIVISOR cfg" and cap: "0 < CS_SERVICE_NUMBER_SECTORS cfg"
    and le: "drop_bit (TC_LB_SIZE_BIT_SHIFT_DIVISOR cfg) (EncryptedAreaLength (crypto_info w))
             \<le> drop_bit (TC_LB_SIZE_BIT_SHIFT_DIVISOR cfg) (VolumeSize (crypto_info w))"
  shows "\<exists>st w1. do_encrypt_decrypt_media cfg sv True w = Some (st, w1)
          \<and> (drop_bit (TC_LB_SIZE_BIT_SHIFT_DIVISOR cfg) (EncryptedAreaLength (crypto_info w))
               < drop_bit (TC_LB_SIZE_BIT_SHIFT_DIVISOR cfg) (VolumeSize (crypto_info w))
             \<longrightarrow> \<not> EFI_ERROR st)
          \<and> (crypto_info w1 = (crypto_info w)\<lparr>EncryptedAreaLength :=
                  push_bit (TC_LB_SIZE_BIT_SHIFT_DIVISOR cfg)
                    (drop_bit (TC_LB_SIZE_BIT_SHIFT_DIVISOR cfg) (VolumeSize (crypto_info w)))\<rparr>
              \<or> drop_bit (TC_LB_SIZE_BIT_SHIFT_DIVISOR cfg) (EncryptedAreaLength (crypto_info w))
                  = drop_bit (TC_LB_SIZE_BIT_SHIFT_DIVISOR cfg) (VolumeSize (crypto_info w))
                \<and> crypto_info w1 = crypto_info w)"
proof -
  let ?n = "TC_LB_SIZE_BIT_SHIFT_DIVISOR cfg"
  let ?E = "drop_bit ?n (EncryptedAreaLength (crypto_info w))"
  let ?V = "drop_bit ?n (VolumeSize (crypto_info w))"
  let ?S = "drop_bit ?n (EncryptedAreaStart (crypto_info w))"
  let ?v0 = "initial_locals cfg sv True (crypto_info w)"
  let ?w0 = "emit (AllocatePool (push_bit ?n (CS_SERVICE_NUMBER_SECTORS cfg)) True) (emit ResetInput w)"
  have v0: "lba ?v0 = ?E" "numberSectors ?v0 = ?V - ?E" "bufferSectors ?v0 = CS_SERVICE_NUMBER_SECTORS cfg"
    by (simp_all add: initial_locals_def Let_def)
  from copy_loop_completes_from_any_count [OF H, of ?v0 cfg ChildBlockIo ParentBlockIo 0 ?V ?w0] cap v0
  obtain v' wl where L: "copy_loop cfg sv True ChildBlockIo ParentBlockIo 0 ?V ?v0 ?w0 = Some (v', wl)"
    and ci: "crypto_info wl = crypto_info w"
    and lb: "lba v' = ?V"
    and er: "0 < ?V - ?E \<longrightarrow> \<not> EFI_ERROR (error v')"
    by auto
  have ok: "\<not> ?V < ?E" using le by (simp add: not_less)
  have pos: "?E < ?V \<Longrightarrow> 0 < ?V - ?E"
    by (simp add: word_less_nat_alt unat_sub_if_size word_size)
  have unf: "do_encrypt_decrypt_media cfg sv True w =
      (if EFI_ERROR (error v') then Some (error v', emit FreePoolBuffer wl)
       else Some (update_blocks_in_volume_header cfg sv (?V + ?S) True (emit FreePoolBuffer wl)))"
    using ok alloc by (simp add: do_encrypt_decrypt_media_unfold L ci lb)
  show ?thesis
  proof (cases "EFI_ERROR (error v')")
    case True
    with er pos have "\<not> ?E < ?V" by blast
    with ok have "?E = ?V" by simp
    with True unf ci show ?thesis by simp
  next
    case False
    have rng: "\<not> (?V + ?S < ?S \<or> ?S + ?V < ?V + ?S)"
      by (rule in_range_after_encrypt) (rule sh)
    with False unf U ci show ?thesis
      by (simp add: update_blocks_result Let_def)
  qed
qed

lemma do_decrypt_completes:
  assumes H: "\<forall>k. \<not> EFI_ERROR (sv_ReadBlocks sv k)" "\<forall>k. \<not> EFI_ERROR (sv_WriteBlocks sv k)"
    "\<forall>k. \<not> sv_check_for_ESC sv k"
    and U: "\<forall>k. \<not> EFI_ERROR (sv_update_volume_header sv k)"
    and alloc: "sv_AllocatePool sv"
    and sh: "0 < TC_LB_SIZE_BIT_SHIFT_DIVISOR cfg" and cap: "0 < CS_SERVICE_NUMBER_SECTORS cfg"
    and le: "drop_bit (TC_LB_SIZE_BIT_SHIFT_DIVISOR cfg) (EncryptedAreaLength (crypto_info w))
             \<le> drop_bit (TC_LB_SIZE_BIT_SHIFT_DIVISOR cfg) (VolumeSize (crypto_info w))"
  shows "\<exists>st w2. do_encrypt_decrypt_media cfg sv False w = Some (st, w2)
          \<and> (0 < drop_bit (TC_LB_SIZE_BIT_SHIFT_DIVISOR cfg) (EncryptedAreaLength (crypto_info w))
             \<longrightarrow> \<not> EFI_ERROR st)
          \<and> (crypto_info w2 = (crypto_info w)\<lparr>EncryptedAreaLength := 0\<rparr>
              \<or> drop_bit (TC_LB_SIZE_BIT_SHIFT_DIVISOR cfg) (EncryptedAreaLength (crypto_info w)) = 0
                \<and> crypto_info w2 = crypto_info w)"
proof -
  let ?n = "TC_LB_SIZE_BIT_SHIFT_DIVISOR cfg"
  let ?E = "drop_bit ?n (EncryptedAreaLength (crypto_info w))"
  let ?V = "drop_bit ?n (VolumeSize (crypto_info w))"
  let ?S = "drop_bit ?n (EncryptedAreaStart (crypto_info w))"
  let ?v0 = "initial_locals cfg sv False (crypto_info w)"
  let ?w0 = "emit (AllocatePool (push_bit ?n (CS_SERVICE_NUMBER_SECTORS cfg)) True) (emit ResetInput w)"
  have v0: "numberSectors ?v0 = ?E"
    "bufferSectors ?v0 = (if ?E < CS_SERVICE_NUMBER_SECTORS cfg then ?E else CS_SERVICE_NUMBER_SECTORS cfg)"
    "lba ?v0 = numberSectors ?v0 - bufferSectors ?v0"
    by (simp_all add: initial_locals_def Let_def)
  have I1: "bufferSectors ?v0 \<le> numberSectors ?v0"
    unfolding v0(1,2) by (auto simp: word_le_nat_alt word_less_nat_alt)
  have I2: "0 < numberSectors ?v0 \<longrightarrow> 0 < bufferSectors ?v0"
    unfolding v0(1,2) using cap by auto
  from copy_loop_completes [OF H I1 I2, of cfg False ParentBlockIo ChildBlockIo 0 ?V ?w0] v0(3)
  obtain v' wl where L: "copy_loop cfg sv False ParentBlockIo ChildBlockIo 0 ?V ?v0 ?w0 = Some (v', wl)"
    and ci: "crypto_info wl = crypto_info w"
    and lb: "lba v' + bufferSectors v' = 0"
    and er: "0 < numberSectors ?v0 \<longrightarrow> \<not> EFI_ERROR (error v')"
    by auto
  have ok: "\<not> ?V < ?E" using le by (simp add: not_less)
  have q: "lba v' + ?S + bufferSectors v' = ?S"
  proof -
    have "lba v' + ?S + bufferSectors v' = (lba v' + bufferSectors v') + ?S" by simp
    then show ?thesis by (simp only: lb) simp
  qed
  have unf: "do_encrypt_decrypt_media cfg sv False w =
      (if EFI_ERROR (error v') then Some (error v', emit FreePoolBuffer wl)
       else Some (update_blocks_in_volume_header cfg sv ?S False (emit FreePoolBuffer wl)))"
    using ok alloc by (simp add: do_encrypt_decrypt_media_unfold L ci q)
  show ?thesis
  proof (cases "EFI_ERROR (error v')")
    case True
    with er have "\<not> 0 < ?E" by (simp add: v0(1))
    then have "?E = 0" by (simp add: word_greater_zero_iff)
    with True unf ci show ?thesis by simp
  next
    case False
    have rng: "\<not> (?S < ?S \<or> ?S + ?V < ?S)"
      by (rule in_range_after_decrypt) (rule sh)
    with False unf U ci show ?thesis
      by (simp add: update_blocks_result Let_def)
  qed
qed


text \<open>
  Claim C6. Take any sector-size shift greater than zero, any buffer capacity greater than
  zero, and a header whose volume size is a whole number of sectors and whose encrypted
  length is 0. Let the buffer allocation, every read, every write and every header write
  succeed, and let the user never press escape. Then the conversion in the Encrypt direction
  returns and leaves the encrypted length equal to the volume size; the conversion in the
  Decrypt direction, started from there, returns and leaves the header exactly as it was at
  the very beginning, so the encrypted length is 0 again. On a volume that is not empty both
  runs return without error.
\<close>

theorem encrypt_then_decrypt_round_trip:
  assumes H: "\<forall>k. \<not> EFI_ERROR (sv_ReadBlocks sv k)" "\<forall>k. \<not> EFI_ERROR (sv_WriteBlocks sv k)"
    "\<forall>k. \<not> sv_check_for_ESC sv k"
    and U: "\<forall>k. \<not> EFI_ERROR (sv_update_volume_header sv k)"
    and alloc: "sv_AllocatePool sv"
    and sh: "0 < TC_LB_SIZE_BIT_SHIFT_DIVISOR cfg" and cap: "0 < CS_SERVICE_NUMBER_SECTORS cfg"
    and zero: "EncryptedAreaLength (crypto_info w) = 0"
    and whole: "VolumeSize (crypto_info w)
                = push_bit (TC_LB_SIZE_BIT_SHIFT_DIVISOR cfg)
                    (drop_bit (TC_LB_SIZE_BIT_SHIFT_DIVISOR cfg) (VolumeSize (crypto_info w)))"
  shows "\<exists>st1 w1 st2 w2.
           do_encrypt_decrypt_media cfg sv True w = Some (st1, w1)
         \<and> EncryptedAreaLength (crypto_info w1) = VolumeSize (crypto_info w)
         \<and> do_encrypt_decrypt_media cfg sv False w1 = Some (st2, w2)
         \<and> EncryptedAreaLength (crypto_info w2) = EncryptedAreaLength (crypto_info w)
         \<and> crypto_info w2 = crypto_info w
         \<and> (0 < drop_bit (TC_LB_SIZE_BIT_SHIFT_DIVISOR cfg) (VolumeSize (crypto_info w))
              \<longrightarrow> \<not> EFI_ERROR st1 \<and> \<not> EFI_ERROR st2)"
proof -
  let ?n = "TC_LB_SIZE_BIT_SHIFT_DIVISOR cfg"
  let ?V = "drop_bit ?n (VolumeSize (crypto_info w))"
  have E0: "drop_bit ?n (EncryptedAreaLength (crypto_info w)) = 0" by (simp add: zero)
  have le: "drop_bit ?n (EncryptedAreaLength (crypto_info w)) \<le> ?V" by (simp add: E0)
  from do_encrypt_completes [OF H U alloc sh cap le]
  obtain st1 w1 where r1: "do_encrypt_decrypt_media cfg sv True w = Some (st1, w1)"
    and s1: "0 < ?V \<longrightarrow> \<not> EFI_ERROR st1"
    and c1: "crypto_info w1 = (crypto_info w)\<lparr>EncryptedAreaLength := push_bit ?n ?V\<rparr>
             \<or> 0 = ?V \<and> crypto_info w1 = crypto_info w"
    unfolding E0 by blast
  have V0: "?V = 0 \<Longrightarrow> VolumeSize (crypto_info w) = 0"
    using whole by (metis push_bit_of_0)
  have h1: "crypto_info w1 = (crypto_info w)\<lparr>EncryptedAreaLength := VolumeSize (crypto_info w)\<rparr>"
    using c1
  proof
    assume "crypto_info w1 = (crypto_info w)\<lparr>EncryptedAreaLength := push_bit ?n ?V\<rparr>"
    then show ?thesis using whole by simp
  next
    assume a: "0 = ?V \<and> crypto_info w1 = crypto_info w"
    then have "VolumeSize (crypto_info w) = 0" using V0 by simp
    with a zero show ?thesis by simp
  qed
  have E1: "drop_bit ?n (EncryptedAreaLength (crypto_info w1)) = ?V" by (simp add: h1)
  have V1: "drop_bit ?n (VolumeSize (crypto_info w1)) = ?V" by (simp add: h1)
  have le1: "drop_bit ?n (EncryptedAreaLength (crypto_info w1)) \<le> drop_bit ?n (VolumeSize (crypto_info w1))"
    by (simp add: E1 V1)
  from do_decrypt_completes [OF H U alloc sh cap le1]
  obtain st2 w2 where r2: "do_encrypt_decrypt_media cfg sv False w1 = Some (st2, w2)"
    and s2: "0 < ?V \<longrightarrow> \<not> EFI_ERROR st2"
    and c2: "crypto_info w2 = (crypto_info w1)\<lparr>EncryptedAreaLength := 0\<rparr>
             \<or> ?V = 0 \<and> crypto_info w2 = crypto_info w1"
    unfolding E1 by blast
  have h2: "crypto_info w2 = crypto_info w"
    using c2
  proof
    assume "crypto_info w2 = (crypto_info w1)\<lparr>EncryptedAreaLength := 0\<rparr>"
    then show ?thesis using h1 zero by simp
  next
    assume a: "?V = 0 \<and> crypto_info w2 = crypto_info w1"
    then have "VolumeSize (crypto_info w) = 0" using V0 by simp
    with a h1 zero show ?thesis by simp
  qed
  from r1 r2 h1 h2 s1 s2 show ?thesis by simp
qed

theorem encrypt_then_decrypt_round_trip_witness:
  "\<exists>st1 w1 st2 w2.
       do_encrypt_decrypt_media (cs_build 9) example_services True example_world = Some (st1, w1)
     \<and> EncryptedAreaLength (crypto_info w1) = 512000
     \<and> do_encrypt_decrypt_media (cs_build 9) example_services False w1 = Some (st2, w2)
     \<and> crypto_info w2 = example_header
     \<and> \<not> EFI_ERROR st1 \<and> \<not> EFI_ERROR st2"
proof -
  have 1: "\<forall>k. \<not> EFI_ERROR (sv_ReadBlocks example_services k)"
    and 2: "\<forall>k. \<not> EFI_ERROR (sv_WriteBlocks example_services k)"
    and 3: "\<forall>k. \<not> sv_check_for_ESC example_services k"
    and 4: "\<forall>k. \<not> EFI_ERROR (sv_update_volume_header example_services k)"
    and 5: "sv_AllocatePool example_services"
    by (simp_all add: example_services_def EFI_ERROR_simps)
  have 6: "0 < TC_LB_SIZE_BIT_SHIFT_DIVISOR (cs_build 9)"
    and 7: "0 < CS_SERVICE_NUMBER_SECTORS (cs_build 9)"
    by (simp_all add: cs_build_def)
  have 8: "EncryptedAreaLength (crypto_info example_world) = 0"
    by (simp add: example_world_def example_header_def)
  have 9: "VolumeSize (crypto_info example_world)
           = push_bit (TC_LB_SIZE_BIT_SHIFT_DIVISOR (cs_build 9))
               (drop_bit (TC_LB_SIZE_BIT_SHIFT_DIVISOR (cs_build 9)) (VolumeSize (crypto_info example_world)))"
    by (simp add: example_world_def example_header_def cs_build_def drop_bit_eq_div push_bit_eq_mult)
  have 10: "0 < drop_bit (TC_LB_SIZE_BIT_SHIFT_DIVISOR (cs_build 9)) (VolumeSize (crypto_info example_world))"
    by (simp add: example_world_def example_header_def cs_build_def drop_bit_eq_div)
  from encrypt_then_decrypt_round_trip [OF 1 2 3 4 5 6 7 8 9] 10
  show ?thesis
    by (simp add: example_world_def example_header_def) blast
qed

subsection \<open>From the password to the conversion\<close>

lemma read_chunks_append [simp]: "read_chunks (xs @ ys) = read_chunks xs @ read_chunks ys"
  by (induction xs rule: read_chunks.induct) simp_all

lemma write_chunks_append [simp]: "write_chunks (xs @ ys) = write_chunks xs @ write_chunks ys"
  by (induction xs rule: write_chunks.induct) simp_all

lemma discovery_events_silent:
  assumes "\<forall>e\<in>set es. is_discovery_event e"
  shows "read_chunks es = []" and "write_chunks es = []" and "persisted_headers es = []"
    and "filter is_CheckForESC es = []" and "filter is_UpdateVolumeHeader es = []"
  using assms
proof (induction es)
  case Nil
  {
    case 1 show ?case by simp
  next
    case 2 show ?case by simp
  next
    case 3 show ?case by simp
  next
    case 4 show ?case by simp
  next
    case 5 show ?case by simp
  }
next
  case (Cons e es)
  {
    case 1 with Cons(1) show ?case by (cases e) simp_all
  next
    case 2 with Cons(2) show ?case by (cases e) simp_all
  next
    case 3 with Cons(3) show ?case by (cases e) simp_all
  next
    case 4 with Cons(4) show ?case by (cases e) simp_all
  next
    case 5 with Cons(5) show ?case by (cases e) simp_all
  }
qed

lemma scan_open_info_frame:
  "crypto_info (snd (scan_open_info sv P es w)) = crypto_info w
   \<and> (\<exists>xs. trace (snd (scan_open_info sv P es w)) = trace w @ xs \<and> (\<forall>e\<in>set xs. is_discovery_event e))"
proof (induction es arbitrary: w)
  case Nil
  show ?case by simp
next
  case (Cons e es)
  show ?case
  proof (cases "is_child_controller e")
    case False
    with Cons [of w] show ?thesis by (simp add: is_child_controller_def)
  next
    case True
    show ?thesis
    proof (cases "sv_is_cs_child_device sv P (ControllerHandle e)")
      case True
      with \<open>is_child_controller e\<close> show ?thesis
        by (simp add: is_child_controller_def is_cs_child_device_def Let_def)
    next
      case False
      define w1 where "w1 = emit (IsCsChildDevice P (ControllerHandle e) False) w"
      from Cons [of w1] obtain xs where
        "crypto_info (snd (scan_open_info sv P es w1)) = crypto_info w1"
        "trace (snd (scan_open_info sv P es w1)) = trace w1 @ xs" "\<forall>e\<in>set xs. is_discovery_event e"
        by blast
      then have "crypto_info (snd (scan_open_info sv P es w1)) = crypto_info w
        \<and> trace (snd (scan_open_info sv P es w1)) = trace w @ (IsCsChildDevice P (ControllerHandle e) False # xs)
        \<and> (\<forall>e\<in>set (IsCsChildDevice P (ControllerHandle e) False # xs). is_discovery_event e)"
        by (simp add: w1_def)
      with False \<open>is_child_controller e\<close> show ?thesis
        by (simp add: is_child_controller_def is_cs_child_device_def Let_def w1_def)
    qed
  qed
qed

lemma scan_open_info_handle:
  "fst (scan_open_info sv P es w) = fst (scan_open_info sv P es w0)"
  by (induction es arbitrary: w w0) (simp_all add: is_cs_child_device_def Let_def)

lemma get_cs_child_status:
  "fst (get_cs_child sv P w) = fst (get_cs_child sv P w0)"
  using scan_open_info_handle [of sv P _ "emit (OpenProtocolInformation P (fst (sv_OpenProtocolInformation sv))) w"
      "emit (OpenProtocolInformation P (fst (sv_OpenProtocolInformation sv))) w0"]
  by (simp add: get_cs_child_def Let_def)

lemma get_cs_child_frame:
  "crypto_info (snd (snd (get_cs_child sv P w))) = crypto_info w
   \<and> (\<exists>xs. trace (snd (snd (get_cs_child sv P w))) = trace w @ xs \<and> (\<forall>e\<in>set xs. is_discovery_event e))"
proof -
  define w1 where "w1 = emit (OpenProtocolInformation P (fst (sv_OpenProtocolInformation sv))) w"
  define es where "es = (case snd (sv_OpenProtocolInformation sv) of None \<Rightarrow> [] | Some es \<Rightarrow> es)"
  from scan_open_info_frame [of sv P es w1] obtain xs where
    a: "crypto_info (snd (scan_open_info sv P es w1)) = crypto_info w1"
    and b: "trace (snd (scan_open_info sv P es w1)) = trace w1 @ xs" and c: "\<forall>e\<in>set xs. is_discovery_event e"
    by blast
  have b': "trace (snd (scan_open_info sv P es w1))
            = trace w @ (OpenProtocolInformation P (fst (sv_OpenProtocolInformation sv)) # xs)"
    using b by (simp add: w1_def)
  have c': "\<forall>e\<in>set (OpenProtocolInformation P (fst (sv_OpenProtocolInformation sv)) # xs). is_discovery_event e"
    using c by simp
  have c'': "\<forall>e\<in>set (OpenProtocolInformation P (fst (sv_OpenProtocolInformation sv)) # xs @ [FreePoolOpenInfo]).
               is_discovery_event e"
    using c by simp
  have t0: "trace w1 = trace w @ [OpenProtocolInformation P (fst (sv_OpenProtocolInformation sv))]"
    by (simp add: w1_def)
  have d0: "\<forall>e\<in>set [OpenProtocolInformation P (fst (sv_OpenProtocolInformation sv))]. is_discovery_event e"
    by simp
  show ?thesis
  proof (cases "EFI_ERROR (fst (sv_OpenProtocolInformation sv))")
    case True
    then have "snd (snd (get_cs_child sv P w)) = w1"
      by (simp add: get_cs_child_def Let_def w1_def)
    with t0 d0 show ?thesis by (metis crypto_info_emit w1_def)
  next
    case False
    show ?thesis
    proof (cases "snd (sv_OpenProtocolInformation sv) = None")
      case True
      with False have "snd (snd (get_cs_child sv P w)) = snd (scan_open_info sv P es w1)"
        by (simp add: get_cs_child_def Let_def w1_def es_def)
      with a b' c' show ?thesis by (metis crypto_info_emit w1_def)
    next
      case nn: False
      with False have "snd (snd (get_cs_child sv P w)) = emit FreePoolOpenInfo (snd (scan_open_info sv P es w1))"
        by (simp add: get_cs_child_def Let_def w1_def es_def)
      moreover have "trace (emit FreePoolOpenInfo (snd (scan_open_info sv P es w1)))
            = trace w @ (OpenProtocolInformation P (fst (sv_OpenProtocolInformation sv)) # xs @ [FreePoolOpenInfo])"
        using b' by simp
      moreover have "crypto_info (emit FreePoolOpenInfo (snd (scan_open_info sv P es w1))) = crypto_info w"
        using a by (simp add: w1_def)
      ultimately show ?thesis using c'' by metis
    qed
  qed
qed

lemma close_blockio_protocol_frame [simp]:
  "trace (snd (close_blockio_protocol sv h w))
     = trace w @ [CloseProtocol h (sv_CloseProtocol sv (calls is_CloseProtocol w))]"
  "crypto_info (snd (close_blockio_protocol sv h w)) = crypto_info w"
  by (simp_all add: close_blockio_protocol_def Let_def)

lemma encrypt_decrypt_media_reaches_conversion:
  assumes pw: "check_user_password sv flags CS_UI_SERVICE_MENU passwd w = Some (st0, d, passwd', w1)"
    and ok0: "\<not> EFI_ERROR st0" and d: "d \<noteq> CS_UI_ESC_PRESSED"
    and go: "sv_check_really_do sv" "\<not> EFI_ERROR (sv_start_connect_fake_crypto_driver sv)"
    and child: "\<not> EFI_ERROR (fst (get_cs_child sv (sv_get_boot_partition_handle sv) w1))"
    and opens: "\<forall>k. \<not> EFI_ERROR (sv_OpenProtocol sv k)"
  shows "\<exists>w2 pre hc. trace w2 = trace w1 @ pre \<and> crypto_info w2 = crypto_info w1
          \<and> read_chunks pre = [] \<and> write_chunks pre = [] \<and> persisted_headers pre = []
          \<and> filter is_CheckForESC pre = [] \<and> filter is_UpdateVolumeHeader pre = []
          \<and> encrypt_decrypt_media cfg sv flags enc passwd w =
              (case do_encrypt_decrypt_media cfg sv enc w2 of
                 None \<Rightarrow> None
               | Some (err, w3) \<Rightarrow>
                   Some (err, CS_UI_REBOOT, passwd',
                     snd (close_blockio_protocol sv hc
                            (snd (close_blockio_protocol sv (sv_get_boot_partition_handle sv) w3)))))"
proof -
  let ?P = "sv_get_boot_partition_handle sv"
  define wr where "wr = emit (CheckReallyDo True) w1"
  define wa where "wa = emit (StartConnectFakeCryptoDriver (sv_start_connect_fake_crypto_driver sv)) wr"
  define c where "c = get_cs_child sv ?P wa"
  define hc where "hc = fst (snd c)"
  define wb where "wb = snd (snd c)"
  have crd: "check_really_do sv w1 = (True, wr)"
    using go(1) by (simp add: check_really_do_def wr_def)
  have scd: "start_connect_fake_crypto_driver sv wr = (sv_start_connect_fake_crypto_driver sv, wa)"
    by (simp add: start_connect_fake_crypto_driver_def wa_def)
  from get_cs_child_frame [of sv ?P wa] obtain xs where
    cb: "crypto_info wb = crypto_info wa" and tb: "trace wb = trace wa @ xs"
    and dx: "\<forall>e\<in>set xs. is_discovery_event e"
    unfolding wb_def c_def by blast
  have cok: "\<not> EFI_ERROR (fst c)"
    using child get_cs_child_status [of sv ?P wa w1] by (simp add: c_def)
  define wc where "wc = emit (OpenProtocol hc (sv_OpenProtocol sv (Suc (calls is_OpenProtocol wb))))
                          (emit (OpenProtocol ?P (sv_OpenProtocol sv (calls is_OpenProtocol wb))) wb)"
  have op: "open_blockio_protocols sv ?P hc wb
            = (sv_OpenProtocol sv (Suc (calls is_OpenProtocol wb)), wc)"
    using opens by (simp add: open_blockio_protocols_def open_blockio_protocol_def Let_def wc_def)
  have opok: "\<not> EFI_ERROR (sv_OpenProtocol sv (Suc (calls is_OpenProtocol wb)))"
    using opens by simp
  define w2 where "w2 = (if silent flags then wc
                         else snd (ConOut_OutputString sv [CHR 0x0D, CHR 0x0A, CHR 0x0A] wc))"
  define pre where "pre = [CheckReallyDo True, StartConnectFakeCryptoDriver (sv_start_connect_fake_crypto_driver sv)]
      @ xs @ [OpenProtocol ?P (sv_OpenProtocol sv (calls is_OpenProtocol wb)),
              OpenProtocol hc (sv_OpenProtocol sv (Suc (calls is_OpenProtocol wb)))]
      @ (if silent flags then []
         else [OutputString [CHR 0x0D, CHR 0x0A, CHR 0x0A] (sv_OutputString sv (calls is_OutputString wc))])"
  have t2: "trace w2 = trace w1 @ pre"
    by (simp add: w2_def pre_def wc_def tb wa_def wr_def ConOut_OutputString_def Let_def)
  have c2: "crypto_info w2 = crypto_info w1"
    by (simp add: w2_def wc_def cb wa_def wr_def ConOut_OutputString_def Let_def)
  note sil = discovery_events_silent [OF dx]
  have q: "read_chunks pre = []" "write_chunks pre = []" "persisted_headers pre = []"
    "filter is_CheckForESC pre = []" "filter is_UpdateVolumeHeader pre = []"
    using sil by (simp_all add: pre_def)
  have main: "encrypt_decrypt_media cfg sv flags enc passwd w =
              (case do_encrypt_decrypt_media cfg sv enc w2 of
                 None \<Rightarrow> None
               | Some (err, w3) \<Rightarrow>
                   Some (err, CS_UI_REBOOT, passwd',
                     snd (close_blockio_protocol sv hc (snd (close_blockio_protocol sv ?P w3)))))"
  proof (cases "silent flags")
    case True
    then have "w2 = wc" by (simp add: w2_def)
    with True ok0 d go(2) cok opok show ?thesis
      by (simp add: encrypt_decrypt_media_def pw crd scd Let_def c_def [symmetric] hc_def [symmetric]
          wb_def [symmetric] op)
         (simp add: hc_def c_def Let_def split: option.splits)
  next
    case False
    then have "w2 = snd (ConOut_OutputString sv [CHR 0x0D, CHR 0x0A, CHR 0x0A] wc)" by (simp add: w2_def)
    with False ok0 d go(2) cok opok show ?thesis
      by (simp add: encrypt_decrypt_media_def pw crd scd Let_def c_def [symmetric] hc_def [symmetric]
          wb_def [symmetric] op)
         (simp add: hc_def c_def Let_def split: option.splits)
  qed
  from t2 c2 q main show ?thesis by blast
qed

subsection \<open>Converting a volume of 1000 sectors\<close>

lemma loop_events_silent:
  assumes "\<forall>e\<in>set es. is_loop_event e"
  shows "filter is_UpdateVolumeHeader es = []"
  using assms
proof (induction es)
  case Nil
  show ?case by simp
next
  case (Cons e es)
  then show ?case by (cases e) simp_all
qed

lemma in_range_within:
  fixes a V n :: "64 word"
  assumes "0 < sh" and "n \<le> drop_bit sh V"
  shows "\<not> (n + drop_bit sh a < drop_bit sh a \<or> drop_bit sh a + drop_bit sh V < n + drop_bit sh a)"
proof -
  have le: "unat n \<le> unat (drop_bit sh V)" using assms(2) by (simp add: word_le_nat_alt)
  have nw: "unat (drop_bit sh a) + unat (drop_bit sh V) < 2 ^ 64"
    by (rule start_plus_no_wrap [OF assms(1)])
  have s1: "unat (drop_bit sh a + drop_bit sh V) = unat (drop_bit sh a) + unat (drop_bit sh V)"
    using nw by (simp add: unat_add_lem [THEN iffD1])
  have "unat n + unat (drop_bit sh a) < 2 ^ 64" using le nw by linarith
  then have s2: "unat (n + drop_bit sh a) = unat n + unat (drop_bit sh a)"
    by (simp add: unat_add_lem [THEN iffD1])
  show ?thesis using le by (simp add: word_less_nat_alt s1 s2)
qed

lemma thirteen_chunks_loop:
  assumes H: "\<forall>k. \<not> EFI_ERROR (sv_ReadBlocks sv k)" "\<forall>k. \<not> EFI_ERROR (sv_WriteBlocks sv k)"
    "\<forall>k. \<not> sv_check_for_ESC sv k"
  shows "case copy_loop cfg sv True ChildBlockIo ParentBlockIo 0 1000
           \<lparr>error = g, lba = 0, numberSectors = 1000, bufferSectors = 80,
            bytesToRead = push_bit (TC_LB_SIZE_BIT_SHIFT_DIVISOR cfg) 80\<rparr> w of
           None \<Rightarrow> False
         | Some (v', w') \<Rightarrow>
             lba v' = 1000 \<and> \<not> EFI_ERROR (error v')
             \<and> read_chunks (drop (length (trace w)) (trace w'))
                 = thirteen_chunks (TC_LB_SIZE_BIT_SHIFT_DIVISOR cfg) ChildBlockIo
             \<and> write_chunks (drop (length (trace w)) (trace w'))
                 = thirteen_chunks (TC_LB_SIZE_BIT_SHIFT_DIVISOR cfg) ParentBlockIo"
  using H
  by (simp add: copy_loop.simps copy_chunk_def BlockIo_ReadBlocks_def BlockIo_WriteBlocks_def
      check_for_ESC_def dump_per_cent_def Let_def emit_def calls_def thirteen_chunks_def)

lemma three_chunks_loop:
  assumes H: "\<forall>k. \<not> EFI_ERROR (sv_ReadBlocks sv k)" "\<forall>k. \<not> EFI_ERROR (sv_WriteBlocks sv k)"
    and esc: "\<not> sv_check_for_ESC sv (calls is_CheckForESC w)"
      "\<not> sv_check_for_ESC sv (Suc (calls is_CheckForESC w))"
      "sv_check_for_ESC sv (Suc (Suc (calls is_CheckForESC w)))"
  shows "case copy_loop cfg sv True ChildBlockIo ParentBlockIo 0 1000
           \<lparr>error = g, lba = 0, numberSectors = 1000, bufferSectors = 80,
            bytesToRead = push_bit (TC_LB_SIZE_BIT_SHIFT_DIVISOR cfg) 80\<rparr> w of
           None \<Rightarrow> False
         | Some (v', w') \<Rightarrow>
             lba v' = 240 \<and> \<not> EFI_ERROR (error v')
             \<and> read_chunks (drop (length (trace w)) (trace w'))
                 = first_three_chunks (TC_LB_SIZE_BIT_SHIFT_DIVISOR cfg) ChildBlockIo
             \<and> write_chunks (drop (length (trace w)) (trace w'))
                 = first_three_chunks (TC_LB_SIZE_BIT_SHIFT_DIVISOR cfg) ParentBlockIo"
  using H esc
  by (simp add: copy_loop.simps copy_chunk_def BlockIo_ReadBlocks_def BlockIo_WriteBlocks_def
      check_for_ESC_def dump_per_cent_def Let_def emit_def calls_def first_three_chunks_def)

text \<open>What a forward conversion of the 1000-sector volume does once its loop has returned
  with the cursor at \<open>n\<close> sectors and a status that is no error.\<close>

lemma conversion_after_loop:
  assumes sh: "0 < TC_LB_SIZE_BIT_SHIFT_DIVISOR cfg" and cap: "CS_SERVICE_NUMBER_SECTORS cfg = 80"
    and vol: "drop_bit (TC_LB_SIZE_BIT_SHIFT_DIVISOR cfg) (VolumeSize (crypto_info w)) = 1000"
      "EncryptedAreaLength (crypto_info w) = 0"
    and alloc: "sv_AllocatePool sv"
    and L: "copy_loop cfg sv True ChildBlockIo ParentBlockIo 0 1000
              \<lparr>error = sv_error_garbage sv, lba = 0, numberSectors = 1000, bufferSectors = 80,
               bytesToRead = push_bit (TC_LB_SIZE_BIT_SHIFT_DIVISOR cfg) 80\<rparr>
              (emit (AllocatePool (push_bit (TC_LB_SIZE_BIT_SHIFT_DIVISOR cfg) 80) True) (emit ResetInput w))
            = Some (v', wl)"
    and lb: "lba v' = n" and n: "n \<le> 1000" and er: "\<not> EFI_ERROR (error v')"
    and rd: "read_chunks (drop (Suc (Suc (length (trace w)))) (trace wl)) = rs"
    and wr: "write_chunks (drop (Suc (Suc (length (trace w)))) (trace wl)) = ws"
  shows "\<exists>w3 es. do_encrypt_decrypt_media cfg sv True w
                   = Some (sv_update_volume_header sv (calls is_UpdateVolumeHeader w), w3)
        \<and> trace w3 = trace w @ es
        \<and> crypto_info w3 = (crypto_info w)\<lparr>EncryptedAreaLength := push_bit (TC_LB_SIZE_BIT_SHIFT_DIVISOR cfg) n\<rparr>
        \<and> read_chunks es = rs \<and> write_chunks es = ws
        \<and> persisted_headers es
            = [(crypto_info w)\<lparr>EncryptedAreaLength := push_bit (TC_LB_SIZE_BIT_SHIFT_DIVISOR cfg) n\<rparr>]"
proof -
  let ?n = "TC_LB_SIZE_BIT_SHIFT_DIVISOR cfg"
  let ?S = "drop_bit ?n (EncryptedAreaStart (crypto_info w))"
  let ?w0 = "emit (AllocatePool (push_bit ?n 80) True) (emit ResetInput w)"
  let ?ci = "(crypto_info w)\<lparr>EncryptedAreaLength := push_bit ?n n\<rparr>"
  have v0: "initial_locals cfg sv True (crypto_info w)
            = \<lparr>error = sv_error_garbage sv, lba = 0, numberSectors = 1000, bufferSectors = 80,
               bytesToRead = push_bit ?n 80\<rparr>"
    by (simp add: initial_locals_def Let_def vol cap)
  from copy_loop_frame [OF L] obtain es where
    ci: "crypto_info wl = crypto_info w" and tr: "trace wl = trace w @ [ResetInput, AllocatePool (push_bit ?n 80) True] @ es"
    and ev: "\<forall>e\<in>set es. is_loop_event e"
    by auto
  have rs: "read_chunks es = rs" and ws: "write_chunks es = ws"
    using rd wr by (simp_all add: tr)
  have unf: "do_encrypt_decrypt_media cfg sv True w
             = Some (update_blocks_in_volume_header cfg sv (n + ?S) True (emit FreePoolBuffer wl))"
    using alloc er by (simp add: do_encrypt_decrypt_media_unfold vol cap v0 L ci lb)
  have rng: "\<not> (n + ?S < ?S \<or> ?S + 1000 < n + ?S)"
    using in_range_within [OF sh, of n "VolumeSize (crypto_info w)" "EncryptedAreaStart (crypto_info w)"] n
    by (simp add: vol)
  have cu: "calls is_UpdateVolumeHeader wl = calls is_UpdateVolumeHeader w"
    using loop_events_silent [OF ev] by (simp add: calls_def tr)
  define w3 where "w3 = \<lparr>crypto_info = ?ci,
      trace = trace w @ ([ResetInput, AllocatePool (push_bit ?n 80) True] @ es
                @ [FreePoolBuffer, UpdateBlocksInVolumeHeader (n + ?S) True,
                   UpdateVolumeHeader ?ci (sv_update_volume_header sv (calls is_UpdateVolumeHeader w))])\<rparr>"
  have ub: "update_blocks_in_volume_header cfg sv (n + ?S) True (emit FreePoolBuffer wl)
            = (sv_update_volume_header sv (calls is_UpdateVolumeHeader w), w3)"
    using rng by (simp add: update_blocks_result Let_def ci vol cu w3_def tr)
  have "persisted_headers ([ResetInput, AllocatePool (push_bit ?n 80) True] @ es
                @ [FreePoolBuffer, UpdateBlocksInVolumeHeader (n + ?S) True,
                   UpdateVolumeHeader ?ci (sv_update_volume_header sv (calls is_UpdateVolumeHeader w))]) = [?ci]"
    using ev by simp
  moreover have "read_chunks ([ResetInput, AllocatePool (push_bit ?n 80) True] @ es
                @ [FreePoolBuffer, UpdateBlocksInVolumeHeader (n + ?S) True,
                   UpdateVolumeHeader ?ci (sv_update_volume_header sv (calls is_UpdateVolumeHeader w))]) = rs"
    using rs by simp
  moreover have "write_chunks ([ResetInput, AllocatePool (push_bit ?n 80) True] @ es
                @ [FreePoolBuffer, UpdateBlocksInVolumeHeader (n + ?S) True,
                   UpdateVolumeHeader ?ci (sv_update_volume_header sv (calls is_UpdateVolumeHeader w))]) = ws"
    using ws by simp
  moreover have "trace w3 = trace w @ ([ResetInput, AllocatePool (push_bit ?n 80) True] @ es
                @ [FreePoolBuffer, UpdateBlocksInVolumeHeader (n + ?S) True,
                   UpdateVolumeHeader ?ci (sv_update_volume_header sv (calls is_UpdateVolumeHeader w))])"
    and "crypto_info w3 = ?ci"
    by (simp_all add: w3_def)
  ultimately show ?thesis using unf ub by metis
qed

subsection \<open>The two scenarios on a volume of 1000 sectors\<close>

text \<open>
  Claim C3. Let the buffer hold 80 sectors and the sector-size shift be greater than zero.
  Let the password check return without error and without escape, leaving a header whose
  volume has 1000 sectors and whose encrypted length is 0; let the user confirm, the driver
  start, device discovery succeed, both interfaces open and the buffer be allocated. If every
  read and every write succeeds and the user never presses escape, then
  \<open>encrypt_decrypt_media\<close> in the Encrypt direction returns with \<open>*user_decision = CS_UI_REBOOT\<close>;
  after the password check it has read exactly thirteen chunks from the child interface and
  written the same thirteen chunks to the parent interface (twelve of 80 sectors from LBA 0 to
  880, then 40 sectors at LBA 960), and it has handed one header to \<open>update_volume_header\<close>,
  whose encrypted length is 1000 sectors in bytes.
\<close>

theorem full_encryption_of_1000_sectors:
  assumes sh: "0 < TC_LB_SIZE_BIT_SHIFT_DIVISOR cfg" and cap: "CS_SERVICE_NUMBER_SECTORS cfg = 80"
    and pw: "check_user_password sv flags CS_UI_SERVICE_MENU passwd w = Some (st0, d, passwd', w1)"
    and ok0: "\<not> EFI_ERROR st0" and d: "d \<noteq> CS_UI_ESC_PRESSED"
    and vol: "drop_bit (TC_LB_SIZE_BIT_SHIFT_DIVISOR cfg) (VolumeSize (crypto_info w1)) = 1000"
      "EncryptedAreaLength (crypto_info w1) = 0"
    and go: "sv_check_really_do sv" "\<not> EFI_ERROR (sv_start_connect_fake_crypto_driver sv)"
    and child: "\<not> EFI_ERROR (fst (get_cs_child sv (sv_get_boot_partition_handle sv) w1))"
    and opens: "\<forall>k. \<not> EFI_ERROR (sv_OpenProtocol sv k)"
    and alloc: "sv_AllocatePool sv"
    and H: "\<forall>k. \<not> EFI_ERROR (sv_ReadBlocks sv k)" "\<forall>k. \<not> EFI_ERROR (sv_WriteBlocks sv k)"
      "\<forall>k. \<not> sv_check_for_ESC sv k"
  shows "\<exists>st w'. encrypt_decrypt_media cfg sv flags True passwd w = Some (st, CS_UI_REBOOT, passwd', w')
         \<and> read_chunks (new_events w1 w') = thirteen_chunks (TC_LB_SIZE_BIT_SHIFT_DIVISOR cfg) ChildBlockIo
         \<and> write_chunks (new_events w1 w') = thirteen_chunks (TC_LB_SIZE_BIT_SHIFT_DIVISOR cfg) ParentBlockIo
         \<and> persisted_headers (new_events w1 w')
             = [(crypto_info w1)\<lparr>EncryptedAreaLength := push_bit (TC_LB_SIZE_BIT_SHIFT_DIVISOR cfg) 1000\<rparr>]
         \<and> EncryptedAreaLength (crypto_info w') = push_bit (TC_LB_SIZE_BIT_SHIFT_DIVISOR cfg) 1000"
proof -
  let ?n = "TC_LB_SIZE_BIT_SHIFT_DIVISOR cfg"
  let ?P = "sv_get_boot_partition_handle sv"
  from encrypt_decrypt_media_reaches_conversion [OF pw ok0 d go child opens, where cfg = cfg and enc = True]
  obtain w2 pre hc where t2: "trace w2 = trace w1 @ pre" and c2: "crypto_info w2 = crypto_info w1"
    and q: "read_chunks pre = []" "write_chunks pre = []" "persisted_headers pre = []"
    and run: "encrypt_decrypt_media cfg sv flags True passwd w =
              (case do_encrypt_decrypt_media cfg sv True w2 of
                 None \<Rightarrow> None
               | Some (err, w3) \<Rightarrow>
                   Some (err, CS_UI_REBOOT, passwd',
                     snd (close_blockio_protocol sv hc (snd (close_blockio_protocol sv ?P w3)))))"
    by blast
  let ?w0 = "emit (AllocatePool (push_bit ?n 80) True) (emit ResetInput w2)"
  let ?v0 = "\<lparr>error = sv_error_garbage sv, lba = 0, numberSectors = 1000, bufferSectors = 80,
              bytesToRead = push_bit ?n 80\<rparr>"
  from thirteen_chunks_loop [OF H, where cfg = cfg and g = "sv_error_garbage sv" and w = ?w0]
  obtain v' wl where L: "copy_loop cfg sv True ChildBlockIo ParentBlockIo 0 1000 ?v0 ?w0 = Some (v', wl)"
    and lb: "lba v' = 1000" and er: "\<not> EFI_ERROR (error v')"
    and rd: "read_chunks (drop (length (trace ?w0)) (trace wl)) = thirteen_chunks ?n ChildBlockIo"
    and wr: "write_chunks (drop (length (trace ?w0)) (trace wl)) = thirteen_chunks ?n ParentBlockIo"
    by (cases "copy_loop cfg sv True ChildBlockIo ParentBlockIo 0 1000 ?v0 ?w0") auto
  have rd': "read_chunks (drop (Suc (Suc (length (trace w2)))) (trace wl)) = thirteen_chunks ?n ChildBlockIo"
    and wr': "write_chunks (drop (Suc (Suc (length (trace w2)))) (trace wl)) = thirteen_chunks ?n ParentBlockIo"
    using rd wr by simp_all
  have vol2: "drop_bit ?n (VolumeSize (crypto_info w2)) = 1000" "EncryptedAreaLength (crypto_info w2) = 0"
    using vol by (simp_all add: c2)
  from conversion_after_loop [OF sh cap vol2 alloc L lb _ er rd' wr']
  obtain w3 es where
    r: "do_encrypt_decrypt_media cfg sv True w2
          = Some (sv_update_volume_header sv (calls is_UpdateVolumeHeader w2), w3)"
    and t3: "trace w3 = trace w2 @ es"
    and c3: "crypto_info w3 = (crypto_info w2)\<lparr>EncryptedAreaLength := push_bit ?n 1000\<rparr>"
    and e3: "read_chunks es = thirteen_chunks ?n ChildBlockIo"
      "write_chunks es = thirteen_chunks ?n ParentBlockIo"
      "persisted_headers es = [(crypto_info w2)\<lparr>EncryptedAreaLength := push_bit ?n 1000\<rparr>]"
    by auto
  define w' where "w' = snd (close_blockio_protocol sv hc (snd (close_blockio_protocol sv ?P w3)))"
  have res: "encrypt_decrypt_media cfg sv flags True passwd w
             = Some (sv_update_volume_header sv (calls is_UpdateVolumeHeader w2), CS_UI_REBOOT, passwd', w')"
    by (simp add: run r w'_def)
  have tw: "trace w' = trace w1 @ (pre @ es
              @ [CloseProtocol ?P (sv_CloseProtocol sv (calls is_CloseProtocol w3)),
                 CloseProtocol hc (sv_CloseProtocol sv
                   (calls is_CloseProtocol (snd (close_blockio_protocol sv ?P w3))))])"
    by (simp add: w'_def t3 t2)
  have ne: "new_events w1 w' = pre @ es
              @ [CloseProtocol ?P (sv_CloseProtocol sv (calls is_CloseProtocol w3)),
                 CloseProtocol hc (sv_CloseProtocol sv
                   (calls is_CloseProtocol (snd (close_blockio_protocol sv ?P w3))))]"
    by (rule new_events_append [OF tw])
  have cw: "crypto_info w' = (crypto_info w1)\<lparr>EncryptedAreaLength := push_bit ?n 1000\<rparr>"
    by (simp add: w'_def c3 c2)
  have "read_chunks (new_events w1 w') = thirteen_chunks ?n ChildBlockIo"
    "write_chunks (new_events w1 w') = thirteen_chunks ?n ParentBlockIo"
    "persisted_headers (new_events w1 w') = [(crypto_info w1)\<lparr>EncryptedAreaLength := push_bit ?n 1000\<rparr>]"
    unfolding ne using q e3 by (simp_all add: c2)
  with res cw show ?thesis by simp
qed


theorem full_encryption_of_1000_sectors_witness:
  "\<exists>st w'. encrypt_decrypt_media (cs_build 9) example_services example_flags True example_passwd example_world
             = Some (st, CS_UI_REBOOT, typed_passwd, w')
          \<and> length (read_chunks (new_events unlocked_world w')) = 13
          \<and> EncryptedAreaLength (crypto_info w') = 512000"
proof -
  have pw: "check_user_password example_services example_flags CS_UI_SERVICE_MENU example_passwd example_world
            = Some (EFI_SUCCESS, CS_UI_SERVICE_MENU, typed_passwd, unlocked_world)"
    by (simp add: check_user_password_def password_loop.simps ConOut_OutputString_def ask_for_pwd_def
        get_input_def decrypt_volume_header_def strlena_def Let_def emit_def calls_def
        example_services_def example_flags_def example_passwd_def example_world_def
        unlocked_world_def typed_passwd_def EFI_ERROR_simps EFI_SUCCESS_not_ACCESS_DENIED)
  have 1: "0 < TC_LB_SIZE_BIT_SHIFT_DIVISOR (cs_build 9)" "CS_SERVICE_NUMBER_SECTORS (cs_build 9) = 80"
    by (simp_all add: cs_build_def)
  have 2: "\<not> EFI_ERROR EFI_SUCCESS" "CS_UI_SERVICE_MENU \<noteq> CS_UI_ESC_PRESSED"
    by (simp_all add: EFI_ERROR_simps)
  have 3: "drop_bit (TC_LB_SIZE_BIT_SHIFT_DIVISOR (cs_build 9)) (VolumeSize (crypto_info unlocked_world)) = 1000"
    "EncryptedAreaLength (crypto_info unlocked_world) = 0"
    by (simp_all add: cs_build_def unlocked_world_def example_header_def drop_bit_eq_div)
  have 4: "sv_check_really_do example_services" "\<not> EFI_ERROR (sv_start_connect_fake_crypto_driver example_services)"
    "\<forall>k. \<not> EFI_ERROR (sv_OpenProtocol example_services k)" "sv_AllocatePool example_services"
    "\<forall>k. \<not> EFI_ERROR (sv_ReadBlocks example_services k)" "\<forall>k. \<not> EFI_ERROR (sv_WriteBlocks example_services k)"
    by (simp_all add: example_services_def EFI_ERROR_simps)
  have 5: "\<not> EFI_ERROR (fst (get_cs_child example_services (sv_get_boot_partition_handle example_services) unlocked_world))"
    by (simp add: get_cs_child_def is_cs_child_device_def Let_def example_services_def
        EFI_OPEN_PROTOCOL_BY_CHILD_CONTROLLER_def NULL_def EFI_ERROR_simps)
  have 6: "\<forall>k. \<not> sv_check_for_ESC example_services k"
    by (simp add: example_services_def)
  from full_encryption_of_1000_sectors [OF 1 pw 2 3 4(1,2) 5 4(3,4,5,6) 6]
  show ?thesis
    by (auto simp: cs_build_def thirteen_chunks_def)
qed

text \<open>
  Claim C5. In the same setting, let the header write succeed and let the poll for the escape
  key answer no after the first and the second chunk and yes after the third. Then
  \<open>encrypt_decrypt_media\<close> returns \<open>EFI_SUCCESS\<close> with \<open>*user_decision = CS_UI_REBOOT\<close>; it has
  transferred exactly the first three chunks (LBA 0, 80 and 160, 80 sectors each) and the one
  header it has handed to \<open>update_volume_header\<close> has an encrypted length of 240 sectors in
  bytes.
\<close>

theorem cancelled_after_third_chunk:
  assumes sh: "0 < TC_LB_SIZE_BIT_SHIFT_DIVISOR cfg" and cap: "CS_SERVICE_NUMBER_SECTORS cfg = 80"
    and pw: "check_user_password sv flags CS_UI_SERVICE_MENU passwd w = Some (st0, d, passwd', w1)"
    and ok0: "\<not> EFI_ERROR st0" and d: "d \<noteq> CS_UI_ESC_PRESSED"
    and vol: "drop_bit (TC_LB_SIZE_BIT_SHIFT_DIVISOR cfg) (VolumeSize (crypto_info w1)) = 1000"
      "EncryptedAreaLength (crypto_info w1) = 0"
    and go: "sv_check_really_do sv" "\<not> EFI_ERROR (sv_start_connect_fake_crypto_driver sv)"
    and child: "\<not> EFI_ERROR (fst (get_cs_child sv (sv_get_boot_partition_handle sv) w1))"
    and opens: "\<forall>k. \<not> EFI_ERROR (sv_OpenProtocol sv k)"
    and alloc: "sv_AllocatePool sv"
    and H: "\<forall>k. \<not> EFI_ERROR (sv_ReadBlocks sv k)" "\<forall>k. \<not> EFI_ERROR (sv_WriteBlocks sv k)"
    and U: "sv_update_volume_header sv (calls is_UpdateVolumeHeader w1) = EFI_SUCCESS"
    and esc: "\<not> sv_check_for_ESC sv (calls is_CheckForESC w1)"
      "\<not> sv_check_for_ESC sv (calls is_CheckForESC w1 + 1)"
      "sv_check_for_ESC sv (calls is_CheckForESC w1 + 2)"
  shows "\<exists>w'. encrypt_decrypt_media cfg sv flags True passwd w = Some (EFI_SUCCESS, CS_UI_REBOOT, passwd', w')
         \<and> read_chunks (new_events w1 w') = first_three_chunks (TC_LB_SIZE_BIT_SHIFT_DIVISOR cfg) ChildBlockIo
         \<and> write_chunks (new_events w1 w') = first_three_chunks (TC_LB_SIZE_BIT_SHIFT_DIVISOR cfg) ParentBlockIo
         \<and> persisted_headers (new_events w1 w')
             = [(crypto_info w1)\<lparr>EncryptedAreaLength := push_bit (TC_LB_SIZE_BIT_SHIFT_DIVISOR cfg) 240\<rparr>]
         \<and> EncryptedAreaLength (crypto_info w') = push_bit (TC_LB_SIZE_BIT_SHIFT_DIVISOR cfg) 240"
proof -
  let ?n = "TC_LB_SIZE_BIT_SHIFT_DIVISOR cfg"
  let ?P = "sv_get_boot_partition_handle sv"
  from encrypt_decrypt_media_reaches_conversion [OF pw ok0 d go child opens, where cfg = cfg and enc = True]
  obtain w2 pre hc where t2: "trace w2 = trace w1 @ pre" and c2: "crypto_info w2 = crypto_info w1"
    and q: "read_chunks pre = []" "write_chunks pre = []" "persisted_headers pre = []"
    and q': "filter is_CheckForESC pre = []" "filter is_UpdateVolumeHeader pre = []"
    and run: "encrypt_decrypt_media cfg sv flags True passwd w =
              (case do_encrypt_decrypt_media cfg sv True w2 of
                 None \<Rightarrow> None
               | Some (err, w3) \<Rightarrow>
                   Some (err, CS_UI_REBOOT, passwd',
                     snd (close_blockio_protocol sv hc (snd (close_blockio_protocol sv ?P w3)))))"
    by blast
  let ?w0 = "emit (AllocatePool (push_bit ?n 80) True) (emit ResetInput w2)"
  let ?v0 = "\<lparr>error = sv_error_garbage sv, lba = 0, numberSectors = 1000, bufferSectors = 80,
              bytesToRead = push_bit ?n 80\<rparr>"
  have k: "calls is_CheckForESC ?w0 = calls is_CheckForESC w1"
    and ku: "calls is_UpdateVolumeHeader w2 = calls is_UpdateVolumeHeader w1"
    using q' by (simp_all add: calls_def t2)
  have esc0: "\<not> sv_check_for_ESC sv (calls is_CheckForESC ?w0)"
    "\<not> sv_check_for_ESC sv (Suc (calls is_CheckForESC ?w0))"
    "sv_check_for_ESC sv (Suc (Suc (calls is_CheckForESC ?w0)))"
    using esc unfolding k by simp_all
  from three_chunks_loop [OF H esc0, where cfg = cfg and g = "sv_error_garbage sv"]
  obtain v' wl where L: "copy_loop cfg sv True ChildBlockIo ParentBlockIo 0 1000 ?v0 ?w0 = Some (v', wl)"
    and lb: "lba v' = 240" and er: "\<not> EFI_ERROR (error v')"
    and rd: "read_chunks (drop (length (trace ?w0)) (trace wl)) = first_three_chunks ?n ChildBlockIo"
    and wr: "write_chunks (drop (length (trace ?w0)) (trace wl)) = first_three_chunks ?n ParentBlockIo"
    by (cases "copy_loop cfg sv True ChildBlockIo ParentBlockIo 0 1000 ?v0 ?w0") auto
  have rd': "read_chunks (drop (Suc (Suc (length (trace w2)))) (trace wl)) = first_three_chunks ?n ChildBlockIo"
    and wr': "write_chunks (drop (Suc (Suc (length (trace w2)))) (trace wl)) = first_three_chunks ?n ParentBlockIo"
    using rd wr by simp_all
  have vol2: "drop_bit ?n (VolumeSize (crypto_info w2)) = 1000" "EncryptedAreaLength (crypto_info w2) = 0"
    using vol by (simp_all add: c2)
  from conversion_after_loop [OF sh cap vol2 alloc L lb _ er rd' wr']
  obtain w3 es where
    r: "do_encrypt_decrypt_media cfg sv True w2
          = Some (sv_update_volume_header sv (calls is_UpdateVolumeHeader w2), w3)"
    and t3: "trace w3 = trace w2 @ es"
    and c3: "crypto_info w3 = (crypto_info w2)\<lparr>EncryptedAreaLength := push_bit ?n 240\<rparr>"
    and e3: "read_chunks es = first_three_chunks ?n ChildBlockIo"
      "write_chunks es = first_three_chunks ?n ParentBlockIo"
      "persisted_headers es = [(crypto_info w2)\<lparr>EncryptedAreaLength := push_bit ?n 240\<rparr>]"
    by auto
  define w' where "w' = snd (close_blockio_protocol sv hc (snd (close_blockio_protocol sv ?P w3)))"
  have res: "encrypt_decrypt_media cfg sv flags True passwd w
             = Some (EFI_SUCCESS, CS_UI_REBOOT, passwd', w')"
    by (simp add: run r w'_def ku U)
  have tw: "trace w' = trace w1 @ (pre @ es
              @ [CloseProtocol ?P (sv_CloseProtocol sv (calls is_CloseProtocol w3)),
                 CloseProtocol hc (sv_CloseProtocol sv
                   (calls is_CloseProtocol (snd (close_blockio_protocol sv ?P w3))))])"
    by (simp add: w'_def t3 t2)
  have ne: "new_events w1 w' = pre @ es
              @ [CloseProtocol ?P (sv_CloseProtocol sv (calls is_CloseProtocol w3)),
                 CloseProtocol hc (sv_CloseProtocol sv
                   (calls is_CloseProtocol (snd (close_blockio_protocol sv ?P w3))))]"
    by (rule new_events_append [OF tw])
  have cw: "crypto_info w' = (crypto_info w1)\<lparr>EncryptedAreaLength := push_bit ?n 240\<rparr>"
    by (simp add: w'_def c3 c2)
  have "read_chunks (new_events w1 w') = first_three_chunks ?n ChildBlockIo"
    "write_chunks (new_events w1 w') = first_three_chunks ?n ParentBlockIo"
    "persisted_headers (new_events w1 w') = [(crypto_info w1)\<lparr>EncryptedAreaLength := push_bit ?n 240\<rparr>]"
    unfolding ne using q e3 by (simp_all add: c2)
  with res cw show ?thesis by simp
qed

theorem cancelled_after_third_chunk_witness:
  "\<exists>w'. encrypt_decrypt_media (cs_build 9) cancelling_services example_flags True example_passwd example_world
          = Some (EFI_SUCCESS, CS_UI_REBOOT, typed_passwd, w')
       \<and> length (read_chunks (new_events unlocked_world w')) = 3
       \<and> EncryptedAreaLength (crypto_info w') = 122880"
proof -
  have pw: "check_user_password cancelling_services example_flags CS_UI_SERVICE_MENU example_passwd example_world
            = Some (EFI_SUCCESS, CS_UI_SERVICE_MENU, typed_passwd, unlocked_world)"
    by (simp add: check_user_password_def password_loop.simps ConOut_OutputString_def ask_for_pwd_def
        get_input_def decrypt_volume_header_def strlena_def Let_def emit_def calls_def
        example_services_def example_flags_def example_passwd_def example_world_def
        unlocked_world_def typed_passwd_def EFI_ERROR_simps EFI_SUCCESS_not_ACCESS_DENIED cancelling_services_def)
  have 1: "0 < TC_LB_SIZE_BIT_SHIFT_DIVISOR (cs_build 9)" "CS_SERVICE_NUMBER_SECTORS (cs_build 9) = 80"
    by (simp_all add: cs_build_def)
  have 2: "\<not> EFI_ERROR EFI_SUCCESS" "CS_UI_SERVICE_MENU \<noteq> CS_UI_ESC_PRESSED"
    by (simp_all add: EFI_ERROR_simps)
  have 3: "drop_bit (TC_LB_SIZE_BIT_SHIFT_DIVISOR (cs_build 9)) (VolumeSize (crypto_info unlocked_world)) = 1000"
    "EncryptedAreaLength (crypto_info unlocked_world) = 0"
    by (simp_all add: cs_build_def unlocked_world_def example_header_def drop_bit_eq_div)
  have 4: "sv_check_really_do cancelling_services" "\<not> EFI_ERROR (sv_start_connect_fake_crypto_driver cancelling_services)"
    "\<forall>k. \<not> EFI_ERROR (sv_OpenProtocol cancelling_services k)" "sv_AllocatePool cancelling_services"
    "\<forall>k. \<not> EFI_ERROR (sv_ReadBlocks cancelling_services k)" "\<forall>k. \<not> EFI_ERROR (sv_WriteBlocks cancelling_services k)"
    by (simp_all add: example_services_def EFI_ERROR_simps cancelling_services_def)
  have 5: "\<not> EFI_ERROR (fst (get_cs_child cancelling_services (sv_get_boot_partition_handle cancelling_services) unlocked_world))"
    by (simp add: get_cs_child_def is_cs_child_device_def Let_def example_services_def
        EFI_OPEN_PROTOCOL_BY_CHILD_CONTROLLER_def NULL_def EFI_ERROR_simps cancelling_services_def)
  have 6: "sv_update_volume_header cancelling_services (calls is_UpdateVolumeHeader unlocked_world) = EFI_SUCCESS"
    by (simp add: cancelling_services_def example_services_def)
  have 7: "\<not> sv_check_for_ESC cancelling_services (calls is_CheckForESC unlocked_world)"
    "\<not> sv_check_for_ESC cancelling_services (calls is_CheckForESC unlocked_world + 1)"
    "sv_check_for_ESC cancelling_services (calls is_CheckForESC unlocked_world + 2)"
    by (simp_all add: cancelling_services_def example_services_def calls_def unlocked_world_def)
  from cancelled_after_third_chunk [OF 1 pw 2 3 4(1,2) 5 4(3,4,5,6) 6 7]
  show ?thesis
    by (auto simp: cs_build_def first_three_chunks_def)
qed

end
